theory Spec2Isabelle
  imports Complex_Main "HOL-Library.Sublist"
begin

section \<open>The adaptive batch task manager (class BatchTaskManager)\<close>

text \<open>
  The development follows the class \<^verbatim>\<open>BatchTaskManager\<close> of the AI route module:
  its task record, the snapshot returned by \<^verbatim>\<open>getStatus\<close>, the controller methods
  \<^verbatim>\<open>start\<close> and \<^verbatim>\<open>stop\<close>, the scheduler \<^verbatim>\<open>runTask\<close> with its helpers
  \<^verbatim>\<open>adjustConcurrency\<close>, \<^verbatim>\<open>calculateDelay\<close>, \<^verbatim>\<open>processCardWithRetry\<close> and
  \<^verbatim>\<open>isRateLimitError\<close>.

  Conventions. JavaScript strings are byte lists holding the UTF-8 encoding of the text;
  the Chinese literals of the source are therefore written byte by byte. A string that
  is \<^verbatim>\<open>undefined\<close>, \<^verbatim>\<open>null\<close> or empty is falsy, which is all the code asks of it.
  \<^verbatim>\<open>Date.now()\<close> is an argument \<open>now\<close> of the operations that read the clock.
  The concurrency level is an \<open>int\<close>: it starts from an integer and is only changed by
  \<^verbatim>\<open>Math.floor(c / 2)\<close> and \<^verbatim>\<open>c + 1\<close>. Delays are rationals, because
  \<^verbatim>\<open>baseDelay / 2\<close> is a JavaScript division and may be a half.
\<close>

subsection \<open>String literals of the source\<close>

definition msg_already_running :: string where
  "msg_already_running = [CHR 0xE5, CHR 0xB7, CHR 0xB2, CHR 0xE6, CHR 0x9C, CHR 0x89, CHR 0xE4,
     CHR 0xBB, CHR 0xBB, CHR 0xE5, CHR 0x8A, CHR 0xA1, CHR 0xE5, CHR 0x9C, CHR 0xA8, CHR 0xE8,
     CHR 0xBF, CHR 0x90, CHR 0xE8, CHR 0xA1, CHR 0x8C, CHR 0xE4, CHR 0xB8, CHR 0xAD]"

definition label_starting :: string where
  "label_starting = [CHR 0xE5, CHR 0x87, CHR 0x86, CHR 0xE5, CHR 0xA4, CHR 0x87, CHR 0xE5,
     CHR 0x90, CHR 0xAF, CHR 0xE5, CHR 0x8A, CHR 0xA8, CHR 0x2E, CHR 0x2E, CHR 0x2E]"

definition label_stopped :: string where
  "label_stopped = [CHR 0xE5, CHR 0xB7, CHR 0xB2, CHR 0xE5, CHR 0x81, CHR 0x9C, CHR 0xE6,
     CHR 0xAD, CHR 0xA2]"

definition title_system :: string where
  "title_system = [CHR 0xE7, CHR 0xB3, CHR 0xBB, CHR 0xE7, CHR 0xBB, CHR 0x9F]"

definition msg_rate_limit :: string where
  "msg_rate_limit = [CHR 0x41, CHR 0x50, CHR 0x49, CHR 0x20, CHR 0xE8, CHR 0xAF, CHR 0xB7,
     CHR 0xE6, CHR 0xB1, CHR 0x82, CHR 0xE5, CHR 0x8F, CHR 0x97, CHR 0xE9, CHR 0x99, CHR 0x90,
     CHR 0x20, CHR 0x28, CHR 0x52, CHR 0x61, CHR 0x74, CHR 0x65, CHR 0x20, CHR 0x4C, CHR 0x69,
     CHR 0x6D, CHR 0x69, CHR 0x74, CHR 0x29, CHR 0xEF, CHR 0xBC, CHR 0x8C, CHR 0xE8, CHR 0xAF,
     CHR 0xB7, CHR 0xE7, CHR 0xA8, CHR 0x8D, CHR 0xE5, CHR 0x90, CHR 0x8E, CHR 0xE5, CHR 0x86,
     CHR 0x8D, CHR 0xE8, CHR 0xAF, CHR 0x95, CHR 0xE6, CHR 0x88, CHR 0x96, CHR 0xE9, CHR 0x99,
     CHR 0x8D, CHR 0xE4, CHR 0xBD, CHR 0x8E, CHR 0xE5, CHR 0xB9, CHR 0xB6, CHR 0xE5, CHR 0x8F,
     CHR 0x91, CHR 0xE6, CHR 0x95, CHR 0xB0]"

definition prefix_partial :: string where
  "prefix_partial = [CHR 0xE9, CHR 0x83, CHR 0xA8, CHR 0xE5, CHR 0x88, CHR 0x86, CHR 0xE6,
     CHR 0x88, CHR 0x90, CHR 0xE5, CHR 0x8A, CHR 0x9F, CHR 0x3A, CHR 0x20]"

definition msg_unknown :: string where
  "msg_unknown = [CHR 0xE6, CHR 0x9C, CHR 0xAA, CHR 0xE7, CHR 0x9F, CHR 0xA5, CHR 0xE9,
     CHR 0x94, CHR 0x99, CHR 0xE8, CHR 0xAF, CHR 0xAF]"

definition phrase_too_frequent :: string where
  "phrase_too_frequent = [CHR 0xE8, CHR 0xAF, CHR 0xB7, CHR 0xE6, CHR 0xB1, CHR 0x82, CHR 0xE8,
     CHR 0xBF, CHR 0x87, CHR 0xE4, CHR 0xBA, CHR 0x8E, CHR 0xE9, CHR 0xA2, CHR 0x91, CHR 0xE7,
     CHR 0xB9, CHR 0x81]"

subsection \<open>Data\<close>

text \<open>A card as the scheduler reads it: \<^verbatim>\<open>card.id\<close>, \<^verbatim>\<open>card.title\<close>, \<^verbatim>\<open>card.url\<close>.\<close>

record card =
  card_id :: int
  title :: string
  url :: string

text \<open>An entry of \<^verbatim>\<open>task.errors\<close>; \<^verbatim>\<open>isWarning\<close> is absent (falsy) on real errors.\<close>

record error_entry =
  cardId :: int
  cardTitle :: string
  errorText :: string
  time :: nat
  isWarning :: bool

type_synonym strategy = "(string \<times> string) list"

text \<open>The object literal assigned to \<^verbatim>\<open>this.task\<close> in \<^verbatim>\<open>start\<close>.\<close>

record task =
  running :: bool
  types :: "string list"
  strategy :: strategy
  current :: nat
  total :: nat
  successCount :: nat
  failCount :: nat
  currentCard :: string
  startTime :: nat
  errors :: "error_entry list"
  concurrency :: int
  isRateLimited :: bool
  consecutiveSuccesses :: nat
  rateLimitCount :: nat

text \<open>
  The fields set by the constructor. \<^verbatim>\<open>abortController\<close> is \<open>None\<close> while it is
  \<^verbatim>\<open>null\<close>, and otherwise holds \<^verbatim>\<open>signal.aborted\<close>.
\<close>

record manager =
  task :: "task option"
  abortController :: "bool option"
  minConcurrency :: int
  maxConcurrency :: int
  initialConcurrency :: int

definition constructor :: manager where
  "constructor = \<lparr>task = None, abortController = None,
     minConcurrency = 1, maxConcurrency = 5, initialConcurrency = 3\<rparr>"

text \<open>The object returned by \<^verbatim>\<open>getStatus\<close> when a task exists.\<close>

record snapshot =
  s_running :: bool
  s_types :: "string list"
  s_current :: nat
  s_total :: nat
  s_successCount :: nat
  s_failCount :: nat
  s_currentCard :: string
  s_startTime :: nat
  s_concurrency :: int
  s_isRateLimited :: bool
  s_errors :: "error_entry list"

datatype task_status = NoTask | Snapshot snapshot

subsection \<open>Array.prototype.slice\<close>

text \<open>
  \<^verbatim>\<open>xs.slice(start, end)\<close>: a negative bound counts from the end of the array, and
  both bounds are clipped to the array.
\<close>

definition js_slice :: "'a list \<Rightarrow> int \<Rightarrow> int \<Rightarrow> 'a list" where
  "js_slice xs start end =
     (let len = int (length xs);
          k = (if start < 0 then max (len + start) 0 else min start len);
          e = (if end < 0 then max (len + end) 0 else min end len)
      in take (nat (e - k)) (drop (nat k) xs))"

text \<open>\<^verbatim>\<open>xs.slice(start)\<close>: the end defaults to the length.\<close>

definition js_slice_from :: "'a list \<Rightarrow> int \<Rightarrow> 'a list" where
  "js_slice_from xs start = js_slice xs start (int (length xs))"

subsection \<open>getStatus and isRunning\<close>

definition getStatus :: "manager \<Rightarrow> task_status" where
  "getStatus m =
     (case task m of
        None \<Rightarrow> NoTask
      | Some t \<Rightarrow> Snapshot \<lparr>
          s_running = running t,
          s_types = types t,
          s_current = current t,
          s_total = total t,
          s_successCount = successCount t,
          s_failCount = failCount t,
          s_currentCard = currentCard t,
          s_startTime = startTime t,
          s_concurrency = concurrency t,
          s_isRateLimited = isRateLimited t,
          s_errors = js_slice_from (errors t) (- 100)\<rparr>)"

text \<open>\<^verbatim>\<open>this.task && this.task.running\<close>, read as a condition.\<close>

definition isRunning :: "manager \<Rightarrow> bool" where
  "isRunning m = (case task m of None \<Rightarrow> False | Some t \<Rightarrow> running t)"

subsection \<open>adjustConcurrency\<close>

definition adjustConcurrency :: "manager \<Rightarrow> nat \<Rightarrow> nat \<Rightarrow> bool \<Rightarrow> manager" where
  "adjustConcurrency m successCnt failCnt hasRateLimit =
     (case task m of
        None \<Rightarrow> m
      | Some t \<Rightarrow>
          if hasRateLimit then
            m\<lparr>task := Some (t\<lparr>
              rateLimitCount := rateLimitCount t + 1,
              consecutiveSuccesses := 0,
              isRateLimited := True,
              concurrency := max (minConcurrency m) (concurrency t div 2)\<rparr>)\<rparr>
          else if successCnt > 0 \<and> failCnt = 0 then
            (let t1 = t\<lparr>consecutiveSuccesses := consecutiveSuccesses t + 1,
                         isRateLimited := False\<rparr>
             in if consecutiveSuccesses t1 \<ge> 3 \<and> concurrency t1 < maxConcurrency m then
                  m\<lparr>task := Some (t1\<lparr>
                    concurrency := min (maxConcurrency m) (concurrency t1 + 1),
                    consecutiveSuccesses := 0\<rparr>)\<rparr>
                else m\<lparr>task := Some t1\<rparr>)
          else
            m\<lparr>task := Some (t\<lparr>consecutiveSuccesses := 0\<rparr>)\<rparr>)"

subsection \<open>calculateDelay\<close>

definition calculateDelay :: "manager \<Rightarrow> rat \<Rightarrow> bool \<Rightarrow> rat" where
  "calculateDelay m baseDelay hasRateLimit =
     (case task m of
        None \<Rightarrow> baseDelay
      | Some t \<Rightarrow>
          if hasRateLimit then
            (let multiplier = 2 ^ (min (rateLimitCount t) 4)
             in min (baseDelay * multiplier) 30000)
          else if concurrency t = 1 then baseDelay
          else max 200 (baseDelay / 2))"

subsection \<open>The base delay read by runTask\<close>

text \<open>
  The result of the built-in \<^verbatim>\<open>parseInt\<close>: \<^verbatim>\<open>NaN\<close> when the value is missing or
  does not begin with a number, an integer otherwise.
\<close>

datatype js_number = NaN | Num int

text \<open>\<^verbatim>\<open>x || d\<close> on numbers: \<^verbatim>\<open>NaN\<close> and \<^verbatim>\<open>0\<close> are falsy.\<close>

definition or_default :: "js_number \<Rightarrow> int \<Rightarrow> int" where
  "or_default x d = (case x of NaN \<Rightarrow> d | Num n \<Rightarrow> if n = 0 then d else n)"

text \<open>
  \<^verbatim>\<open>Math.max(500, Math.min(10000, parseInt(rawConfig.requestDelay) || 1500))\<close>,
  as a function of what \<^verbatim>\<open>parseInt\<close> returned.
\<close>

definition baseDelayOf :: "js_number \<Rightarrow> int" where
  "baseDelayOf parsed = max 500 (min 10000 (or_default parsed 1500))"

subsection \<open>isRateLimitError\<close>

text \<open>
  What the item processor rejects with: an \<^verbatim>\<open>Error\<close> with its \<^verbatim>\<open>message\<close> and
  the value of \<^verbatim>\<open>error.status || error.statusCode\<close> (\<open>None\<close> when neither is set).
\<close>

record thrown_error =
  message :: string
  status :: "int option"

text \<open>\<^verbatim>\<open>s.includes(pat)\<close>: \<open>pat\<close> occurs in \<open>s\<close> as a contiguous run.\<close>

fun str_includes :: "string \<Rightarrow> string \<Rightarrow> bool" where
  "str_includes [] pat = (pat = [])"
| "str_includes (c # cs) pat = (prefix pat (c # cs) \<or> str_includes cs pat)"

definition isRateLimitError :: "thrown_error \<Rightarrow> bool" where
  "isRateLimitError e =
     (status e = Some 429 \<or>
      str_includes (message e) ''429'' \<or>
      str_includes (message e) ''rate limit'' \<or>
      str_includes (message e) ''Rate limit'' \<or>
      str_includes (message e) ''too many requests'' \<or>
      str_includes (message e) ''Too Many Requests'' \<or>
      str_includes (message e) ''quota exceeded'' \<or>
      str_includes (message e) phrase_too_frequent)"

subsection \<open>processCardWithRetry\<close>

text \<open>
  One call of \<^verbatim>\<open>generateCardFields\<close> either returns (\<^verbatim>\<open>updated\<close> and an
  optional \<^verbatim>\<open>partialError\<close>) or throws. The processor is external, so the executor
  takes its behaviour as an oracle: \<open>gen k\<close> is the outcome of the call made with
  \<^verbatim>\<open>retryCount = k\<close>.
\<close>

datatype gen_outcome = Returned bool "string option" | Threw thrown_error

record item_result =
  success :: bool
  updated :: "bool option"
  rateLimited :: bool
  partialError :: "string option"
  error :: "string option"

definition maxRetries :: nat where
  "maxRetries = 2"

text \<open>
  The result of the executor, together with the durations (in ms) it passed to
  \<^verbatim>\<open>this.sleep\<close> on the way, in order.
\<close>

function processCardWithRetry :: "(nat \<Rightarrow> gen_outcome) \<Rightarrow> nat \<Rightarrow> item_result \<times> nat list" where
  "processCardWithRetry gen retryCount =
     (case gen retryCount of
        Returned upd pe \<Rightarrow>
          (\<lparr>success = True, updated = Some upd, rateLimited = False,
            partialError = pe, error = None\<rparr>, [])
      | Threw e \<Rightarrow>
          if isRateLimitError e \<and> retryCount < maxRetries then
            (let retryDelay = 2 ^ (retryCount + 1) * 1000;
                 rest = processCardWithRetry gen (retryCount + 1)
             in (fst rest, retryDelay # snd rest))
          else
            (\<lparr>success = False, updated = None, rateLimited = isRateLimitError e,
              partialError = None, error = Some (message e)\<rparr>, []))"
  by pat_completeness auto
termination
  by (relation "measure (\<lambda>(gen, retryCount). maxRetries - retryCount)") auto

declare processCardWithRetry.simps [simp del]

subsection \<open>Applying the results of a window (the for loop of runTask)\<close>

text \<open>An element of the array \<^verbatim>\<open>Promise.allSettled\<close> resolves to.\<close>

datatype settled = Fulfilled item_result | Rejected "string option"

text \<open>The three locals of the loop body.\<close>

record tally =
  batchSuccess :: nat
  batchFail :: nat
  hasRateLimit :: bool

definition tally0 :: tally where
  "tally0 = \<lparr>batchSuccess = 0, batchFail = 0, hasRateLimit = False\<rparr>"

text \<open>\<^verbatim>\<open>a || b\<close> on strings.\<close>

definition str_or :: "string \<Rightarrow> string \<Rightarrow> string" where
  "str_or a b = (if a \<noteq> [] then a else b)"

definition truthy :: "string option \<Rightarrow> bool" where
  "truthy x = (case x of None \<Rightarrow> False | Some s \<Rightarrow> s \<noteq> [])"

definition entry :: "card \<Rightarrow> string \<Rightarrow> nat \<Rightarrow> bool \<Rightarrow> error_entry" where
  "entry c msg now warn =
     \<lparr>cardId = card_id c, cardTitle = str_or (title c) (url c), errorText = msg,
      time = now, isWarning = warn\<rparr>"

definition push :: "error_entry \<Rightarrow> task \<Rightarrow> task" where
  "push e t = t\<lparr>errors := errors t @ [e]\<rparr>"

text \<open>
  One iteration of the for loop: the task (every update is under \<^verbatim>\<open>if (this.task)\<close>),
  the locals, and the number of calls of \<^verbatim>\<open>notifyDataChange\<close> so far. The card is
  \<^verbatim>\<open>batch[i]\<close> as the loop reads it, that is after the window has settled: the
  processor may have assigned a new title to the object meanwhile.
\<close>

fun applyResult :: "nat \<Rightarrow> card \<times> settled \<Rightarrow> task option \<times> tally \<times> nat \<Rightarrow> task option \<times> tally \<times> nat" where
  "applyResult now (c, Fulfilled v) (tk, ty, n) =
     (let tk1 = map_option (\<lambda>t. t\<lparr>current := current t + 1\<rparr>) tk in
      if success v then
        (map_option (\<lambda>t.
            let t' = t\<lparr>successCount := successCount t + 1\<rparr>
            in if truthy (partialError v)
               then push (entry c (prefix_partial @ the (partialError v)) now True) t'
               else t') tk1,
         ty\<lparr>batchSuccess := batchSuccess ty + 1\<rparr>, n + 1)
      else if rateLimited v then
        (map_option (\<lambda>t.
            push (entry c msg_rate_limit now False) (t\<lparr>failCount := failCount t + 1\<rparr>)) tk1,
         ty\<lparr>hasRateLimit := True, batchFail := batchFail ty + 1\<rparr>, n)
      else
        (map_option (\<lambda>t.
            let t' = t\<lparr>failCount := failCount t + 1\<rparr>
            in if truthy (error v) then push (entry c (the (error v)) now False) t' else t') tk1,
         ty\<lparr>batchFail := batchFail ty + 1\<rparr>, n))"
| "applyResult now (c, Rejected reason) (tk, ty, n) =
     (let tk1 = map_option (\<lambda>t. t\<lparr>current := current t + 1\<rparr>) tk in
      (map_option (\<lambda>t.
          push (entry c (if truthy reason then the reason else msg_unknown) now False)
            (t\<lparr>failCount := failCount t + 1\<rparr>)) tk1,
       ty\<lparr>batchFail := batchFail ty + 1\<rparr>, n))"

definition applyResults :: "nat \<Rightarrow> card list \<Rightarrow> settled list \<Rightarrow> task option \<Rightarrow> task option \<times> tally \<times> nat" where
  "applyResults now batch results tk =
     foldl (\<lambda>st cr. applyResult now cr st) (tk, tally0, 0) (zip batch results)"

subsection \<open>Effects\<close>

text \<open>
  What the manager does to the outside, in order: a snapshot emitted by
  \<^verbatim>\<open>emitUpdate\<close>, a window handed to \<^verbatim>\<open>Promise.allSettled\<close>, an inter-batch
  \<^verbatim>\<open>this.sleep(delay)\<close>, the 500 ms timer of the \<^verbatim>\<open>finally\<close> block, and a call of
  \<^verbatim>\<open>notifyDataChange\<close>.
\<close>

datatype effect = Update task_status | Launch "card list" | Sleep rat | Timer nat | Notify

subsection \<open>extractDomain and the window label\<close>

text \<open>\<^verbatim>\<open>s.replace(pat, rep)\<close> with a string pattern: the first occurrence only.\<close>

fun replace_first :: "string \<Rightarrow> string \<Rightarrow> string \<Rightarrow> string" where
  "replace_first pat rep [] = (if pat = [] then rep else [])"
| "replace_first pat rep (c # cs) =
     (if prefix pat (c # cs) then rep @ drop (length pat) (c # cs)
      else c # replace_first pat rep cs)"

text \<open>
  \<^verbatim>\<open>new URL(url).hostname\<close> belongs to the platform: \<open>hostname\<close> is a parameter,
  \<open>None\<close> where the constructor throws.
\<close>

definition extractDomain :: "(string \<Rightarrow> string option) \<Rightarrow> string \<Rightarrow> string" where
  "extractDomain hostname u =
     (case hostname u of Some h \<Rightarrow> replace_first ''www.'' [] h | None \<Rightarrow> u)"

fun join :: "string \<Rightarrow> string list \<Rightarrow> string" where
  "join sep [] = []"
| "join sep [x] = x"
| "join sep (x # y # ys) = x @ sep @ join sep (y # ys)"

definition batchLabel :: "(string \<Rightarrow> string option) \<Rightarrow> card list \<Rightarrow> string" where
  "batchLabel hostname batch =
     join '', '' (map (\<lambda>c. str_or (title c) (extractDomain hostname (url c))) batch)"

subsection \<open>runTask, from one await to the next\<close>

text \<open>
  \<^verbatim>\<open>runTask\<close> is an async function: it runs without interruption up to an
  \<^verbatim>\<open>await\<close>, and \<^verbatim>\<open>start\<close> and \<^verbatim>\<open>stop\<close> can run only while it is suspended there.
  A suspended scheduler is the await it waits at, with the locals that are live there:
  the reads of the database before the loop (one suspension), the window in flight,
  the inter-batch sleep, and the timer of the \<^verbatim>\<open>finally\<close> block.

  The listeners of \<^verbatim>\<open>emitUpdate\<close> do not throw, and \<^verbatim>\<open>notifyDataChange\<close> catches
  its own failures; so inside the loop nothing throws once a task exists, the
  \<^verbatim>\<open>catch\<close> block is reached from the reads of the database only, and the
  \<^verbatim>\<open>.catch\<close> handler that \<^verbatim>\<open>start\<close> attaches to \<^verbatim>\<open>runTask\<close> never runs.
  The item processor rejects with an \<^verbatim>\<open>Error\<close> object, as its interface requires.
\<close>

record locals =
  cards :: "card list"
  baseDelay :: int
  index :: nat

datatype sched =
    AwaitConfig "card list"
  | AwaitWindow locals "card list"
  | AwaitSleep locals
  | AwaitGrace
  | Finished

text \<open>What the reads of the database resolve to: the parsed delay, or an exception.\<close>

datatype config_result = Loaded js_number | Failed string

text \<open>Entering the \<^verbatim>\<open>finally\<close> block: the timer is awaited only if a task exists.\<close>

definition enterFinally :: "manager \<Rightarrow> manager \<times> sched \<times> effect list" where
  "enterFinally m =
     (case task m of
        None \<Rightarrow> (m, Finished, [])
      | Some t \<Rightarrow> (m, AwaitGrace, [Timer 500]))"

text \<open>
  The head of the while loop up to \<^verbatim>\<open>await Promise.allSettled\<close>: the loop test, the
  abort test, the slice, the label and its snapshot.
\<close>

definition loopHead :: "(string \<Rightarrow> string option) \<Rightarrow> manager \<Rightarrow> locals \<Rightarrow> manager \<times> sched \<times> effect list" where
  "loopHead hostname m l =
     (if index l < length (cards l) then
        (if abortController m = Some True \<or> \<not> isRunning m then enterFinally m
         else
           (case task m of
              None \<Rightarrow> enterFinally m
            | Some t \<Rightarrow>
                let currentConcurrency = concurrency t;
                    batch = js_slice (cards l) (int (index l)) (int (index l) + currentConcurrency);
                    m1 = m\<lparr>task := Some (t\<lparr>currentCard := batchLabel hostname batch\<rparr>)\<rparr>
                in (m1, AwaitWindow l batch, [Update (getStatus m1), Launch batch])))
      else enterFinally m)"

text \<open>The database reads are over: the base delay is computed and the loop is entered,
  or the exception is recorded by the \<^verbatim>\<open>catch\<close> block.\<close>

definition resumeConfig :: "(string \<Rightarrow> string option) \<Rightarrow> nat \<Rightarrow> config_result \<Rightarrow> card list \<Rightarrow> manager \<Rightarrow> manager \<times> sched \<times> effect list" where
  "resumeConfig hostname now r cs m =
     (case r of
        Loaded parsed \<Rightarrow>
          loopHead hostname m \<lparr>cards = cs, baseDelay = baseDelayOf parsed, index = 0\<rparr>
      | Failed msg \<Rightarrow>
          enterFinally (m\<lparr>task := map_option
            (push \<lparr>cardId = 0, cardTitle = title_system, errorText = msg, time = now,
                   isWarning = False\<rparr>) (task m)\<rparr>))"

text \<open>
  The window has settled; \<open>results\<close> is the array \<^verbatim>\<open>Promise.allSettled\<close> resolved to,
  one element for each card of the batch, and \<open>batch\<close> holds the cards of the window
  as they are now. The results are applied in order, the concurrency is adjusted, a
  snapshot is emitted, the index advances, and the scheduler either sleeps or goes
  round the loop.
\<close>

definition resumeWindow :: "(string \<Rightarrow> string option) \<Rightarrow> nat \<Rightarrow> settled list \<Rightarrow> locals \<Rightarrow> card list \<Rightarrow> manager \<Rightarrow> manager \<times> sched \<times> effect list" where
  "resumeWindow hostname now results l batch m =
     (case applyResults now batch results (task m) of
        (tk, ty, n) \<Rightarrow>
          let m1 = adjustConcurrency (m\<lparr>task := tk\<rparr>) (batchSuccess ty) (batchFail ty) (hasRateLimit ty);
              l1 = l\<lparr>index := index l + length batch\<rparr>;
              emitted = replicate n Notify @ [Update (getStatus m1)]
          in if index l1 < length (cards l1) \<and> isRunning m1 then
               (m1, AwaitSleep l1,
                emitted @ [Sleep (calculateDelay m1 (of_int (baseDelay l1)) (hasRateLimit ty))])
             else
               (case loopHead hostname m1 l1 of (m2, s2, eff) \<Rightarrow> (m2, s2, emitted @ eff)))"

text \<open>The timer of the \<^verbatim>\<open>finally\<close> block has fired.\<close>

definition resumeGrace :: "manager \<Rightarrow> manager \<times> sched \<times> effect list" where
  "resumeGrace m =
     (case task m of
        None \<Rightarrow> (m, Finished, [])
      | Some t \<Rightarrow>
          let m1 = m\<lparr>task := Some (t\<lparr>running := False, currentCard := [], current := total t\<rparr>)\<rparr>
          in (m1, Finished, [Update (getStatus m1), Notify]))"

text \<open>
  While a window is in flight \<^verbatim>\<open>generateCardFields\<close> may assign a generated name to
  \<^verbatim>\<open>card.title\<close>; the batch holds the same objects, so the for loop reads the new
  title. \<open>titles i\<close> is the title assigned to the card at position \<open>i\<close> of the
  batch, \<open>None\<close> if its title was left alone.
\<close>

definition retitle :: "string option \<Rightarrow> card \<Rightarrow> card" where
  "retitle assigned c = (case assigned of None \<Rightarrow> c | Some s \<Rightarrow> c\<lparr>title := s\<rparr>)"

definition afterProcessing :: "(nat \<Rightarrow> string option) \<Rightarrow> card list \<Rightarrow> card list" where
  "afterProcessing titles batch = map (\<lambda>i. retitle (titles i) (batch ! i)) [0..<length batch]"

text \<open>
  Resuming a suspended scheduler with what its await resolved to. The window's results
  and the titles assigned meanwhile are given by position in the batch.
\<close>

datatype resumption =
    ConfigRead config_result
  | Settled "nat \<Rightarrow> settled" "nat \<Rightarrow> string option"
  | Woken
  | TimerFired

definition resume :: "(string \<Rightarrow> string option) \<Rightarrow> nat \<Rightarrow> resumption \<Rightarrow> sched \<Rightarrow> manager \<Rightarrow> manager \<times> sched \<times> effect list" where
  "resume hostname now r s m =
     (case (s, r) of
        (AwaitConfig cs, ConfigRead c) \<Rightarrow> resumeConfig hostname now c cs m
      | (AwaitWindow l batch, Settled f titles) \<Rightarrow>
          resumeWindow hostname now (map f [0..<length batch]) l (afterProcessing titles batch) m
      | (AwaitSleep l, Woken) \<Rightarrow> loopHead hostname m l
      | (AwaitGrace, TimerFired) \<Rightarrow> resumeGrace m
      | _ \<Rightarrow> (m, s, []))"

subsection \<open>start and stop\<close>

datatype exn = Error string

text \<open>
  What a call of an async function returns: a promise. \<^verbatim>\<open>start\<close> has no await, so
  its promise is settled when the call returns: resolved with the returned object, or
  rejected with what the body threw. The call itself never throws.
\<close>

datatype 'a promise = Resolve 'a | Reject exn

datatype types_arg = One string | Many "string list"

text \<open>
  The body of \<^verbatim>\<open>start\<close> either throws before touching anything, or installs a new
  abort controller and a new task, emits a snapshot and calls \<^verbatim>\<open>runTask\<close>, which
  suspends at its first await. The result is the promise returned (resolved with
  \<^verbatim>\<open>total\<close>), the manager, the scheduler spawned (if any) and the effects.
\<close>

definition start :: "manager \<Rightarrow> nat \<Rightarrow> card list \<Rightarrow> types_arg \<Rightarrow> strategy \<Rightarrow> nat promise \<times> manager \<times> sched option \<times> effect list" where
  "start m now cs tys strat =
     (if isRunning m then (Reject (Error msg_already_running), m, None, [])
      else
        let m1 = m\<lparr>
              abortController := Some False,
              task := Some \<lparr>
                running = True,
                types = (case tys of Many ts \<Rightarrow> ts | One ty \<Rightarrow> [ty]),
                strategy = strat,
                current = 0,
                total = length cs,
                successCount = 0,
                failCount = 0,
                currentCard = label_starting,
                startTime = now,
                errors = [],
                concurrency = initialConcurrency m,
                isRateLimited = False,
                consecutiveSuccesses = 0,
                rateLimitCount = 0\<rparr>\<rparr>
        in (Resolve (length cs), m1, Some (AwaitConfig cs), [Update (getStatus m1)]))"

definition stop :: "manager \<Rightarrow> manager \<times> effect list" where
  "stop m =
     (let m1 = (case abortController m of None \<Rightarrow> m | Some a \<Rightarrow> m\<lparr>abortController := Some True\<rparr>)
      in case task m1 of
           None \<Rightarrow> (m1, [])
         | Some t \<Rightarrow>
             let m2 = m1\<lparr>task := Some (t\<lparr>running := False, currentCard := label_stopped\<rparr>)\<rparr>
             in (m2, [Update (getStatus m2)]))"

subsection \<open>The process: one manager, its schedulers, and what happened\<close>

record world =
  mgr :: manager
  procs :: "sched list"
  trace :: "effect list"

definition world0 :: world where
  "world0 = \<lparr>mgr = constructor, procs = [], trace = []\<rparr>"

text \<open>
  An event is a call of \<^verbatim>\<open>start\<close> or \<^verbatim>\<open>stop\<close> from a route handler, or the
  resumption of the scheduler number \<open>i\<close>.
\<close>

datatype event =
    Start nat "card list" types_arg strategy
  | Stop
  | Resume nat nat resumption

fun exec :: "(string \<Rightarrow> string option) \<Rightarrow> world \<Rightarrow> event \<Rightarrow> world" where
  "exec hostname w (Start now cs tys strat) =
     (case start (mgr w) now cs tys strat of
        (res, m, spawned, eff) \<Rightarrow>
          \<lparr>mgr = m,
           procs = procs w @ (case spawned of None \<Rightarrow> [] | Some s \<Rightarrow> [s]),
           trace = trace w @ eff\<rparr>)"
| "exec hostname w Stop =
     (case stop (mgr w) of (m, eff) \<Rightarrow> w\<lparr>mgr := m, trace := trace w @ eff\<rparr>)"
| "exec hostname w (Resume i now r) =
     (if i < length (procs w) then
        (case resume hostname now r (procs w ! i) (mgr w) of
           (m, s, eff) \<Rightarrow> \<lparr>mgr = m, procs = (procs w)[i := s], trace = trace w @ eff\<rparr>)
      else w)"

definition run :: "(string \<Rightarrow> string option) \<Rightarrow> world \<Rightarrow> event list \<Rightarrow> world" where
  "run hostname w evs = foldl (exec hostname) w evs"

section \<open>Vocabulary of the properties\<close>

subsection \<open>Predicates and projections\<close>

text \<open>The bounds of the constructor, and a concurrency level between them.\<close>

definition bounded :: "manager \<Rightarrow> bool" where
  "bounded m =
     (minConcurrency m = 1 \<and> maxConcurrency m = 5 \<and> initialConcurrency m = 3 \<and>
      (case task m of
         None \<Rightarrow> True
       | Some t \<Rightarrow> minConcurrency m \<le> concurrency t \<and> concurrency t \<le> maxConcurrency m))"

text \<open>The errors a caller of \<^verbatim>\<open>getStatus\<close> sees.\<close>

definition observedErrors :: "manager \<Rightarrow> error_entry list" where
  "observedErrors m = (case getStatus m of NoTask \<Rightarrow> [] | Snapshot s \<Rightarrow> s_errors s)"


text \<open>A settled item that counts as a success in the for loop.\<close>

definition succeeded :: "settled \<Rightarrow> bool" where
  "succeeded r = (case r of Fulfilled v \<Rightarrow> success v | Rejected reason \<Rightarrow> False)"

text \<open>A settled item that marks its window rate-limited in the for loop.\<close>

definition throttled :: "settled \<Rightarrow> bool" where
  "throttled r = (case r of Fulfilled v \<Rightarrow> \<not> success v \<and> rateLimited v | Rejected reason \<Rightarrow> False)"

text \<open>The warning entry a success leaves behind, if it carries a partial error.\<close>

definition warning :: "nat \<Rightarrow> card \<Rightarrow> settled \<Rightarrow> error_entry list" where
  "warning now c r =
     (case r of
        Fulfilled v \<Rightarrow>
          if truthy (partialError v)
          then [entry c (prefix_partial @ the (partialError v)) now True]
          else []
      | Rejected reason \<Rightarrow> [])"

text \<open>The windows launched and the snapshots emitted, read off a trace.\<close>

fun launches :: "effect list \<Rightarrow> card list list" where
  "launches [] = []"
| "launches (Launch b # es) = b # launches es"
| "launches (_ # es) = launches es"

fun snapshots :: "effect list \<Rightarrow> snapshot list" where
  "snapshots [] = []"
| "snapshots (Update (Snapshot s) # es) = s # snapshots es"
| "snapshots (_ # es) = snapshots es"


subsection \<open>An undisturbed run\<close>

text \<open>
  The first scheduler is resumed again and again, nobody calling \<^verbatim>\<open>start\<close> or
  \<^verbatim>\<open>stop\<close> meanwhile: the database answers \<open>cfg\<close>, the item at position \<open>i\<close>
  of the card list settles as \<open>outcome i\<close>, and \<open>titles i\<close> is the title its
  processing assigns to the card, if any. The run ends when the scheduler has
  finished; \<open>None\<close> means that the fuel ran out first.
\<close>

fun drive :: "(string \<Rightarrow> string option) \<Rightarrow> nat \<Rightarrow> config_result \<Rightarrow> (nat \<Rightarrow> settled) \<Rightarrow> (nat \<Rightarrow> string option) \<Rightarrow> nat \<Rightarrow> world \<Rightarrow> world option" where
  "drive hostname now cfg outcome titles 0 w = None"
| "drive hostname now cfg outcome titles (Suc fuel) w =
     (case procs w of
        [] \<Rightarrow> Some w
      | AwaitConfig cs # _ \<Rightarrow>
          drive hostname now cfg outcome titles fuel
            (exec hostname w (Resume 0 now (ConfigRead cfg)))
      | AwaitWindow l batch # _ \<Rightarrow>
          drive hostname now cfg outcome titles fuel
            (exec hostname w (Resume 0 now
               (Settled (\<lambda>i. outcome (index l + i)) (\<lambda>i. titles (index l + i)))))
      | AwaitSleep l # _ \<Rightarrow>
          drive hostname now cfg outcome titles fuel (exec hostname w (Resume 0 now Woken))
      | AwaitGrace # _ \<Rightarrow>
          drive hostname now cfg outcome titles fuel (exec hostname w (Resume 0 now TimerFired))
      | Finished # _ \<Rightarrow> Some w)"

text \<open>An item settles as the executor returns, given what the processor does for it.\<close>

definition outcomeOf :: "(nat \<Rightarrow> nat \<Rightarrow> gen_outcome) \<Rightarrow> nat \<Rightarrow> settled" where
  "outcomeOf gen i = Fulfilled (fst (processCardWithRetry (gen i) 0))"

subsection \<open>Concrete inputs\<close>

definition cardN :: "nat \<Rightarrow> card" where
  "cardN i = \<lparr>card_id = int i, title = ''card'', url = ''https://example.com/''\<rparr>"

definition tenCards :: "card list" where
  "tenCards = map cardN [1..<11]"

definition noHost :: "string \<Rightarrow> string option" where
  "noHost u = None"

text \<open>The processor leaves every title alone, or names the second card of a window.\<close>

definition noRename :: "nat \<Rightarrow> string option" where
  "noRename i = None"

definition renameSecond :: "nat \<Rightarrow> string option" where
  "renameSecond i = (if i = 1 then Some ''Example'' else None)"

definition err429 :: thrown_error where
  "err429 = \<lparr>message = ''Request failed with status code 429'', status = Some 429\<rparr>"

definition errOther :: thrown_error where
  "errOther = \<lparr>message = ''connect ECONNREFUSED'', status = None\<rparr>"

text \<open>Every call of the processor returns at once.\<close>

definition genClean :: "nat \<Rightarrow> nat \<Rightarrow> gen_outcome" where
  "genClean i k = Returned True None"

text \<open>Item 4 of 10 (position 3) is throttled twice and succeeds on its third attempt.\<close>

definition genRetry :: "nat \<Rightarrow> nat \<Rightarrow> gen_outcome" where
  "genRetry i k = (if i = 3 \<and> k < 2 then Threw err429 else Returned True None)"

text \<open>An item is throttled twice; its third attempt succeeds for the name and fails for
  the tags, which the processor reports as a partial error.\<close>

definition partialTags :: string where
  "partialTags = ''tags'' @ [CHR 0xE5, CHR 0xA4, CHR 0xB1, CHR 0xE8, CHR 0xB4, CHR 0xA5]"

definition genPartial :: "nat \<Rightarrow> gen_outcome" where
  "genPartial k = (if k < 2 then Threw err429 else Returned True (Some partialTags))"

text \<open>The first item is throttled on every attempt; the fourth fails for another reason.\<close>

definition genMixed :: "nat \<Rightarrow> nat \<Rightarrow> gen_outcome" where
  "genMixed i k =
     (if i = 0 then Threw err429 else if i = 3 then Threw errOther else Returned True None)"

text \<open>A task of ten cards has just been started on a fresh manager.\<close>

definition started :: world where
  "started = exec noHost world0 (Start 0 tenCards (Many [''name'']) [])"

text \<open>A manager in the middle of a task, two clean windows into a streak.\<close>

definition task1 :: task where
  "task1 = \<lparr>running = True, types = [''name''], strategy = [], current = 6, total = 10,
     successCount = 5, failCount = 1, currentCard = ''a, b'', startTime = 7, errors = [],
     concurrency = 4, isRateLimited = False, consecutiveSuccesses = 2, rateLimitCount = 1\<rparr>"

definition mgr1 :: manager where
  "mgr1 = constructor\<lparr>task := Some task1, abortController := Some False\<rparr>"

text \<open>The same manager after a rate-limited window: level 2, the flag set.\<close>

definition slowTask :: task where
  "slowTask = task1\<lparr>concurrency := 2, isRateLimited := True, consecutiveSuccesses := 0,
     rateLimitCount := 2\<rparr>"

definition slowMgr :: manager where
  "slowMgr = mgr1\<lparr>task := Some slowTask\<rparr>"

text \<open>The first window is in flight (positions 0 to 2 of ten).\<close>

definition inFlight :: world where
  "inFlight = exec noHost started (Resume 0 1 (ConfigRead (Loaded (Num 1500))))"


text \<open>After the call of \<^verbatim>\<open>stop\<close> the window settles, all three items succeeding,
  and the timer fires.\<close>

definition stoppedRun :: world where
  "stoppedRun = run noHost inFlight
     [Stop, Resume 0 2 (Settled (outcomeOf genClean) renameSecond), Resume 0 3 TimerFired]"

text \<open>A task is started and its first window settles with a throttled item.\<close>

definition evsThrottled :: "event list" where
  "evsThrottled =
     [Start 0 tenCards (Many [''name'']) [],
      Resume 0 1 (ConfigRead (Loaded (Num 1500))),
      Resume 0 2 (Settled (outcomeOf genMixed) noRename)]"

text \<open>Then the scheduler wakes up and its second window, the fourth item alone,
  settles with a failure that is no throttling.\<close>

definition evsMixed :: "event list" where
  "evsMixed = evsThrottled @
     [Resume 0 3 Woken, Resume 0 4 (Settled (\<lambda>i. outcomeOf genMixed (3 + i)) noRename)]"

text \<open>A task that has recorded exactly one hundred errors.\<close>

definition errN :: "nat \<Rightarrow> error_entry" where
  "errN i = \<lparr>cardId = int i, cardTitle = ''card'', errorText = ''failed'', time = i,
     isWarning = False\<rparr>"

definition fullTask :: task where
  "fullTask = task1\<lparr>errors := map errN [0..<100]\<rparr>"

definition fullMgr :: manager where
  "fullMgr = mgr1\<lparr>task := Some fullTask\<rparr>"

text \<open>What the scheduler and the task hold while the first window is in flight.\<close>

definition firstLocals :: locals where
  "firstLocals = \<lparr>cards = tenCards, baseDelay = 1500, index = 0\<rparr>"

definition firstBatch :: "card list" where
  "firstBatch = [cardN 1, cardN 2, cardN 3]"

definition firstTask :: task where
  "firstTask = \<lparr>running = True, types = [''name''], strategy = [], current = 0, total = 10,
     successCount = 0, failCount = 0, currentCard = ''card, card, card'', startTime = 0,
     errors = [], concurrency = 3, isRateLimited = False, consecutiveSuccesses = 0,
     rateLimitCount = 0\<rparr>"

section \<open>Properties\<close>

subsection \<open>Auxiliary facts\<close>

lemma js_slice_from_last:
  assumes "0 < k"
  shows "js_slice_from xs (- int k) = drop (length xs - k) xs"
proof -
  have "nat (max (int (length xs) + - int k) 0) = length xs - k" by auto
  with assms show ?thesis
    by (simp add: js_slice_from_def js_slice_def Let_def)
qed

lemma js_slice_from_100: "js_slice_from xs (- 100) = drop (length xs - 100) xs"
  using js_slice_from_last [of 100 xs] by simp

lemma length_afterProcessing [simp]: "length (afterProcessing titles batch) = length batch"
  by (simp add: afterProcessing_def)

lemma bounded_adjustConcurrency:
  "bounded m \<Longrightarrow> bounded (adjustConcurrency m s f h)"
  by (auto simp: bounded_def adjustConcurrency_def Let_def split: option.splits)

lemma applyResult_concurrency:
  "map_option concurrency (fst (applyResult now cr st)) = map_option concurrency (fst st)"
proof -
  obtain c r where cr: "cr = (c, r)" by (cases cr)
  obtain tk ty n where st: "st = (tk, ty, n)" by (cases st)
  show ?thesis unfolding cr st
    by (cases r; cases tk) (simp_all add: Let_def push_def)
qed

lemma foldl_applyResult_concurrency:
  "map_option concurrency (fst (foldl (\<lambda>st cr. applyResult now cr st) st crs))
     = map_option concurrency (fst st)"
  by (induction crs arbitrary: st) (simp_all add: applyResult_concurrency)

lemma applyResults_concurrency:
  "map_option concurrency (fst (applyResults now batch results tk)) = map_option concurrency tk"
  by (simp add: applyResults_def foldl_applyResult_concurrency)

lemma bounded_same_concurrency:
  "bounded m \<Longrightarrow> map_option concurrency tk = map_option concurrency (task m) \<Longrightarrow>
   bounded (m\<lparr>task := tk\<rparr>)"
  by (cases tk; cases "task m") (auto simp: bounded_def)

lemma bounded_enterFinally:
  "bounded m \<Longrightarrow> enterFinally m = (m', s, eff) \<Longrightarrow> bounded m'"
  by (auto simp: enterFinally_def split: option.splits)

lemma bounded_loopHead:
  "bounded m \<Longrightarrow> loopHead hostname m l = (m', s, eff) \<Longrightarrow> bounded m'"
  by (auto simp: loopHead_def Let_def bounded_def enterFinally_def split: option.splits if_splits)

lemma bounded_resumeGrace:
  "bounded m \<Longrightarrow> resumeGrace m = (m', s, eff) \<Longrightarrow> bounded m'"
  by (auto simp: resumeGrace_def Let_def bounded_def split: option.splits)

lemma bounded_resumeConfig:
  assumes b: "bounded m" and r: "resumeConfig hostname now c cs m = (m', s, eff)"
  shows "bounded m'"
proof (cases c)
  case (Loaded p)
  with b r show ?thesis by (auto simp: resumeConfig_def dest: bounded_loopHead)
next
  case (Failed msg)
  let ?m = "m\<lparr>task := map_option
            (push \<lparr>cardId = 0, cardTitle = title_system, errorText = msg, time = now,
                   isWarning = False\<rparr>) (task m)\<rparr>"
  have "bounded ?m"
    by (rule bounded_same_concurrency [OF b]) (simp add: option.map_comp o_def push_def)
  with r Failed show ?thesis by (auto simp: resumeConfig_def dest: bounded_enterFinally)
qed

lemma bounded_resumeWindow:
  assumes b: "bounded m" and r: "resumeWindow hostname now results l batch m = (m', s, eff)"
  shows "bounded m'"
proof -
  obtain tk ty n where a: "applyResults now batch results (task m) = (tk, ty, n)"
    by (cases "applyResults now batch results (task m)")
  have "map_option concurrency tk = map_option concurrency (task m)"
    using applyResults_concurrency [of now batch results "task m"] a by simp
  then have "bounded (m\<lparr>task := tk\<rparr>)" by (rule bounded_same_concurrency [OF b])
  then have b1: "bounded (adjustConcurrency (m\<lparr>task := tk\<rparr>)
      (batchSuccess ty) (batchFail ty) (hasRateLimit ty))"
    by (rule bounded_adjustConcurrency)
  show ?thesis using r a b1
    by (auto simp: resumeWindow_def Let_def split: if_splits prod.splits dest: bounded_loopHead)
qed

lemma bounded_resume:
  "bounded m \<Longrightarrow> resume hostname now r s m = (m', s', eff) \<Longrightarrow> bounded m'"
  by (cases s; cases r)
     (auto simp: resume_def
        dest: bounded_resumeConfig bounded_resumeWindow bounded_loopHead bounded_resumeGrace)

lemma bounded_start:
  "bounded m \<Longrightarrow> start m now cs tys strat = (res, m', sp, eff) \<Longrightarrow> bounded m'"
  by (auto simp: start_def Let_def bounded_def split: if_splits)

lemma bounded_stop:
  "bounded m \<Longrightarrow> stop m = (m', eff) \<Longrightarrow> bounded m'"
  by (auto simp: stop_def Let_def bounded_def split: option.splits)

lemma bounded_exec:
  assumes "bounded (mgr w)"
  shows "bounded (mgr (exec hostname w ev))"
proof (cases ev)
  case (Start now cs tys strat)
  with assms show ?thesis
    by (cases "start (mgr w) now cs tys strat") (auto dest: bounded_start)
next
  case Stop
  with assms show ?thesis by (cases "stop (mgr w)") (auto dest: bounded_stop)
next
  case (Resume i now r)
  with assms show ?thesis
    by (cases "resume hostname now r (procs w ! i) (mgr w)") (auto dest: bounded_resume)
qed

lemma bounded_run:
  "bounded (mgr w) \<Longrightarrow> bounded (mgr (run hostname w evs))"
  unfolding run_def by (induction evs arbitrary: w) (simp_all add: bounded_exec)

lemma bounded_world0: "bounded (mgr world0)"
  by (simp add: world0_def constructor_def bounded_def)

lemma start_concurrency:
  "\<not> isRunning m \<Longrightarrow>
     map_option concurrency (task (fst (snd (start m now cs tys strat)))) =
       Some (initialConcurrency m)"
  by (simp add: start_def Let_def)

lemma throttled_concurrency:
  "map_option concurrency (task (mgr (run noHost world0 evsThrottled))) = Some 1"
  by code_simp

lemma mgr1_bounded: "bounded mgr1"
  by (simp add: bounded_def mgr1_def task1_def constructor_def)

subsection \<open>C1: the concurrency level stays within its bounds\<close>

text \<open>
  C1. In every state the manager can reach from its construction, by any sequence of
  calls of start and stop and of scheduler steps, the concurrency of the task (if there
  is one) is an integer between min = 1 and max = 5. A task starts at concurrency 3, and
  every call of adjustConcurrency (whatever the window's outcome) keeps the level
  within the bounds.
\<close>

theorem concurrency_within_bounds:
  "bounded (mgr (run hostname world0 evs)) \<and>
   (bounded m \<longrightarrow> \<not> isRunning m \<longrightarrow>
      map_option concurrency (task (fst (snd (start m now cs tys strat)))) = Some 3) \<and>
   (bounded m \<longrightarrow> bounded (adjustConcurrency m s f h))"
proof (intro conjI impI)
  show "bounded (mgr (run hostname world0 evs))"
    by (rule bounded_run [OF bounded_world0])
next
  assume "bounded m" and "\<not> isRunning m"
  then show "map_option concurrency (task (fst (snd (start m now cs tys strat)))) = Some 3"
    by (simp add: start_concurrency bounded_def)
next
  assume "bounded m"
  then show "bounded (adjustConcurrency m s f h)" by (rule bounded_adjustConcurrency)
qed

text \<open>
  Witness for C1: after a first window with a throttled item the level is 1, the lower
  bound; a fresh manager starts its task at 3; and a rate-limited adjustment of a
  manager at level 4 leaves it bounded.
\<close>

theorem concurrency_within_bounds_witness:
  "map_option concurrency (task (mgr (run noHost world0 evsThrottled))) = Some 1 \<and>
   bounded (mgr (run noHost world0 evsThrottled)) \<and>
   bounded constructor \<and> \<not> isRunning constructor \<and>
   map_option concurrency (task (fst (snd (start constructor 0 tenCards (One ''name'') [])))) = Some 3 \<and>
   bounded mgr1 \<and> bounded (adjustConcurrency mgr1 1 2 True)"
proof -
  have c: "bounded constructor" "\<not> isRunning constructor"
    by (simp_all add: bounded_def constructor_def isRunning_def)
  show ?thesis
    using concurrency_within_bounds [of noHost evsThrottled constructor 0 tenCards "One ''name''" "[]" 1 2 True]
      concurrency_within_bounds [of noHost evsThrottled mgr1 0 tenCards "One ''name''" "[]" 1 2 True]
      throttled_concurrency mgr1_bounded c
    by simp
qed

subsection \<open>C2: a rate-limited window\<close>

lemma applyResult_control:
  "\<exists>t' ty' n'. applyResult now cr (Some t, ty, n) = (Some t', ty', n') \<and>
     concurrency t' = concurrency t \<and> rateLimitCount t' = rateLimitCount t \<and>
     hasRateLimit ty' = (hasRateLimit ty \<or> throttled (snd cr))"
proof -
  obtain c r where cr: "cr = (c, r)" by (cases cr)
  show ?thesis unfolding cr by (cases r) (simp_all add: Let_def push_def throttled_def)
qed

lemma foldl_applyResult_control:
  "\<exists>t' ty' n'. foldl (\<lambda>st cr. applyResult now cr st) (Some t, ty, n) crs = (Some t', ty', n') \<and>
     concurrency t' = concurrency t \<and> rateLimitCount t' = rateLimitCount t \<and>
     hasRateLimit ty' = (hasRateLimit ty \<or> (\<exists>cr\<in>set crs. throttled (snd cr)))"
proof (induction crs arbitrary: t ty n)
  case Nil
  show ?case by simp
next
  case (Cons cr crs)
  obtain t1 ty1 n1 where s: "applyResult now cr (Some t, ty, n) = (Some t1, ty1, n1)"
    and f: "concurrency t1 = concurrency t" "rateLimitCount t1 = rateLimitCount t"
      "hasRateLimit ty1 = (hasRateLimit ty \<or> throttled (snd cr))"
    using applyResult_control [of now cr t ty n] by blast
  from Cons.IH [of t1 ty1 n1] s f show ?case by auto
qed

lemma loopHead_task:
  assumes "task m = Some t" and "loopHead hostname m l = (m', s', eff)"
  shows "\<exists>label. task m' = Some (t\<lparr>currentCard := label\<rparr>)"
proof (cases "task m' = Some t")
  case True
  then have "task m' = Some (t\<lparr>currentCard := currentCard t\<rparr>)" by simp
  then show ?thesis ..
next
  case False
  with assms show ?thesis
    by (auto simp: loopHead_def enterFinally_def Let_def split: if_splits)
qed

lemma throttled_window:
  assumes t: "task m = Some t" and len: "length results = length batch"
    and thr: "\<exists>r\<in>set results. throttled r"
  shows "\<exists>m' s' eff t'. resumeWindow hostname now results l batch m = (m', s', eff) \<and>
     task m' = Some t' \<and>
     concurrency t' = max (minConcurrency m) (concurrency t div 2) \<and>
     consecutiveSuccesses t' = 0 \<and> rateLimitCount t' = rateLimitCount t + 1 \<and>
     isRateLimited t'"
proof -
  from thr obtain r where r: "r \<in> set results" "throttled r" by blast
  with len obtain c where "(c, r) \<in> set (zip batch results)"
    by (metis in_set_impl_in_set_zip2)
  with r have z: "\<exists>cr\<in>set (zip batch results). throttled (snd cr)" by force
  obtain t1 ty n where a: "applyResults now batch results (task m) = (Some t1, ty, n)"
    and f1: "concurrency t1 = concurrency t" "rateLimitCount t1 = rateLimitCount t"
      "hasRateLimit ty"
    using foldl_applyResult_control [of now t tally0 0 "zip batch results"] t z
    by (auto simp: applyResults_def)
  define t2 where "t2 = t1\<lparr>rateLimitCount := rateLimitCount t1 + 1, consecutiveSuccesses := 0,
      isRateLimited := True, concurrency := max (minConcurrency m) (concurrency t1 div 2)\<rparr>"
  define m1 where "m1 = m\<lparr>task := Some t2\<rparr>"
  have adj: "adjustConcurrency (m\<lparr>task := Some t1\<rparr>) (batchSuccess ty) (batchFail ty)
      (hasRateLimit ty) = m1"
    using f1 by (simp add: adjustConcurrency_def m1_def t2_def)
  have m1: "task m1 = Some t2" by (simp add: m1_def)
  show ?thesis
  proof (cases "index l + length batch < length (cards l) \<and> isRunning m1")
    case True
    then show ?thesis using a adj m1 f1
      by (simp add: resumeWindow_def Let_def t2_def)
  next
    case False
    obtain m' s' eff where h: "loopHead hostname m1 (l\<lparr>index := index l + length batch\<rparr>)
        = (m', s', eff)"
      by (cases "loopHead hostname m1 (l\<lparr>index := index l + length batch\<rparr>)")
    from loopHead_task [OF m1 h] obtain label
      where "task m' = Some (t2\<lparr>currentCard := label\<rparr>)" by blast
    with False h show ?thesis using a adj f1
      by (auto simp: resumeWindow_def Let_def t2_def)
  qed
qed

text \<open>
  C2. When the window is classified as rate-limited (hasRateLimit is true), the adaptor
  sets the concurrency to max(min, floor(previous / 2)), resets the streak of clean
  batches to 0, increments rateLimitCount by 1 and sets isRateLimited; nothing else
  in the manager changes. The scheduler classifies a window so when one of its items
  failed with rateLimited set, and these four values are then what the task holds when
  the scheduler suspends again.
\<close>

theorem rate_limited_window_adjustment:
  assumes "task m = Some t"
  shows "adjustConcurrency m s f True =
       m\<lparr>task := Some (t\<lparr>
          rateLimitCount := rateLimitCount t + 1,
          consecutiveSuccesses := 0,
          isRateLimited := True,
          concurrency := max (minConcurrency m) (concurrency t div 2)\<rparr>)\<rparr> \<and>
     (length results = length batch \<longrightarrow> (\<exists>r\<in>set results. throttled r) \<longrightarrow>
        (\<exists>m' s' eff t'. resumeWindow hostname now results l batch m = (m', s', eff) \<and>
           task m' = Some t' \<and>
           concurrency t' = max (minConcurrency m) (concurrency t div 2) \<and>
           consecutiveSuccesses t' = 0 \<and> rateLimitCount t' = rateLimitCount t + 1 \<and>
           isRateLimited t'))"
  using assms throttled_window [of m t results batch hostname now l]
  by (simp add: adjustConcurrency_def)

lemma genMixed_throttled: "throttled (outcomeOf genMixed 0)"
  by code_simp

text \<open>Witness for C2: from level 4, streak 2 and one earlier event to level 2, streak 0
  and two events, by the adaptor alone and by a window whose only item was throttled
  on every attempt.\<close>

theorem rate_limited_window_adjustment_witness:
  "task mgr1 = Some task1 \<and>
   map_option concurrency (task (adjustConcurrency mgr1 1 2 True)) = Some 2 \<and>
   map_option consecutiveSuccesses (task (adjustConcurrency mgr1 1 2 True)) = Some 0 \<and>
   map_option rateLimitCount (task (adjustConcurrency mgr1 1 2 True)) = Some 2 \<and>
   map_option isRateLimited (task (adjustConcurrency mgr1 1 2 True)) = Some True \<and>
   length [outcomeOf genMixed 0] = length [cardN 1] \<and> throttled (outcomeOf genMixed 0) \<and>
   (\<exists>m' s' eff t'.
      resumeWindow noHost 0 [outcomeOf genMixed 0] firstLocals [cardN 1] mgr1 = (m', s', eff) \<and>
      task m' = Some t' \<and> concurrency t' = 2 \<and> consecutiveSuccesses t' = 0 \<and>
      rateLimitCount t' = 2 \<and> isRateLimited t')"
proof -
  have h: "task mgr1 = Some task1" by (simp add: mgr1_def)
  have c: "max (minConcurrency mgr1) (concurrency task1 div 2) = 2"
    by (simp add: mgr1_def task1_def constructor_def)
  have k: "rateLimitCount task1 + 1 = 2" by (simp add: task1_def)
  note th = rate_limited_window_adjustment [OF h, of 1 2 "[outcomeOf genMixed 0]" "[cardN 1]"
        noHost 0 firstLocals]
  have a: "adjustConcurrency mgr1 1 2 True =
       mgr1\<lparr>task := Some (task1\<lparr>rateLimitCount := 2, consecutiveSuccesses := 0,
          isRateLimited := True, concurrency := 2\<rparr>)\<rparr>"
    using th c k by (simp add: numeral_2_eq_2)
  have e: "\<exists>m' s' eff t'.
      resumeWindow noHost 0 [outcomeOf genMixed 0] firstLocals [cardN 1] mgr1 = (m', s', eff) \<and>
      task m' = Some t' \<and> concurrency t' = 2 \<and> consecutiveSuccesses t' = 0 \<and>
      rateLimitCount t' = 2 \<and> isRateLimited t'"
    using th genMixed_throttled c k by (simp add: numeral_2_eq_2)
  show ?thesis
    using h genMixed_throttled e a by simp
qed

subsection \<open>C3: a mixed window\<close>

text \<open>
  C3 as stated fails. The first window of ten cards ends with a throttled item, so
  isRateLimited is set; the second window holds one item, which fails with a
  connection error that is no throttling. After that mixed window isRateLimited is
  still true, where C3 says that it is set to false.
\<close>

theorem mixed_window_keeps_flag:
  "outcomeOf genMixed 3 =
     Fulfilled \<lparr>success = False, updated = None, rateLimited = False, partialError = None,
                error = Some ''connect ECONNREFUSED''\<rparr> \<and>
   map_option isRateLimited (task (mgr (run noHost world0 evsThrottled))) = Some True \<and>
   map_option isRateLimited (task (mgr (run noHost world0 evsMixed))) = Some True \<and>
   map_option isRateLimited (task (mgr (run noHost world0 evsMixed))) \<noteq> Some False"
  by code_simp

lemma applyResult_flags:
  "\<exists>t' ty' n'. applyResult now cr (Some t, ty, n) = (Some t', ty', n') \<and>
     concurrency t' = concurrency t \<and> rateLimitCount t' = rateLimitCount t \<and>
     isRateLimited t' = isRateLimited t \<and>
     hasRateLimit ty' = (hasRateLimit ty \<or> throttled (snd cr)) \<and>
     batchFail ty \<le> batchFail ty' \<and>
     (\<not> succeeded (snd cr) \<longrightarrow> batchFail ty < batchFail ty')"
proof -
  obtain c r where cr: "cr = (c, r)" by (cases cr)
  show ?thesis unfolding cr
    by (cases r) (simp_all add: Let_def push_def throttled_def succeeded_def)
qed

lemma foldl_applyResult_flags:
  "\<exists>t' ty' n'. foldl (\<lambda>st cr. applyResult now cr st) (Some t, ty, n) crs = (Some t', ty', n') \<and>
     concurrency t' = concurrency t \<and> rateLimitCount t' = rateLimitCount t \<and>
     isRateLimited t' = isRateLimited t \<and>
     hasRateLimit ty' = (hasRateLimit ty \<or> (\<exists>cr\<in>set crs. throttled (snd cr))) \<and>
     batchFail ty \<le> batchFail ty' \<and>
     ((\<exists>cr\<in>set crs. \<not> succeeded (snd cr)) \<longrightarrow> batchFail ty < batchFail ty')"
proof (induction crs arbitrary: t ty n)
  case Nil
  show ?case by simp
next
  case (Cons cr crs)
  obtain t1 ty1 n1 where s: "applyResult now cr (Some t, ty, n) = (Some t1, ty1, n1)"
    and f: "concurrency t1 = concurrency t" "rateLimitCount t1 = rateLimitCount t"
      "isRateLimited t1 = isRateLimited t"
      "hasRateLimit ty1 = (hasRateLimit ty \<or> throttled (snd cr))"
      "batchFail ty \<le> batchFail ty1"
      "\<not> succeeded (snd cr) \<longrightarrow> batchFail ty < batchFail ty1"
    using applyResult_flags [of now cr t ty n] by blast
  obtain t2 ty2 n2 where s2: "foldl (\<lambda>st cr. applyResult now cr st) (Some t1, ty1, n1) crs
        = (Some t2, ty2, n2)"
    and f2: "concurrency t2 = concurrency t1" "rateLimitCount t2 = rateLimitCount t1"
      "isRateLimited t2 = isRateLimited t1"
      "hasRateLimit ty2 = (hasRateLimit ty1 \<or> (\<exists>cr\<in>set crs. throttled (snd cr)))"
      "batchFail ty1 \<le> batchFail ty2"
      "(\<exists>cr\<in>set crs. \<not> succeeded (snd cr)) \<longrightarrow> batchFail ty1 < batchFail ty2"
    using Cons.IH [of t1 ty1 n1] by blast
  have "foldl (\<lambda>st cr. applyResult now cr st) (Some t, ty, n) (cr # crs) = (Some t2, ty2, n2)"
    using s s2 by simp
  moreover have "hasRateLimit ty2 =
      (hasRateLimit ty \<or> (\<exists>cr\<in>set (cr # crs). throttled (snd cr)))"
    using f f2 by auto
  moreover have "batchFail ty \<le> batchFail ty2" using f f2 by simp
  moreover have "(\<exists>cr\<in>set (cr # crs). \<not> succeeded (snd cr)) \<longrightarrow> batchFail ty < batchFail ty2"
    using f f2 by auto
  ultimately show ?case using f f2 by simp
qed

lemma mixed_window:
  assumes t: "task m = Some t" and len: "length results = length batch"
    and fail: "\<exists>r\<in>set results. \<not> succeeded r"
    and calm: "\<forall>r\<in>set results. \<not> throttled r"
  shows "\<exists>m' s' eff t'. resumeWindow hostname now results l batch m = (m', s', eff) \<and>
     task m' = Some t' \<and> isRateLimited t' = isRateLimited t \<and>
     concurrency t' = concurrency t \<and> consecutiveSuccesses t' = 0 \<and>
     rateLimitCount t' = rateLimitCount t"
proof -
  from fail obtain r where r: "r \<in> set results" "\<not> succeeded r" by blast
  with len obtain c where "(c, r) \<in> set (zip batch results)"
    by (metis in_set_impl_in_set_zip2)
  with r have z: "\<exists>cr\<in>set (zip batch results). \<not> succeeded (snd cr)" by force
  have q: "\<not> (\<exists>cr\<in>set (zip batch results). throttled (snd cr))"
    using calm by (auto dest: set_zip_rightD)
  obtain t1 ty n where a: "applyResults now batch results (task m) = (Some t1, ty, n)"
    and f1: "concurrency t1 = concurrency t" "rateLimitCount t1 = rateLimitCount t"
      "isRateLimited t1 = isRateLimited t" "\<not> hasRateLimit ty" "0 < batchFail ty"
    using foldl_applyResult_flags [of now t tally0 0 "zip batch results"] t z q
    by (auto simp: applyResults_def tally0_def)
  define t2 where "t2 = t1\<lparr>consecutiveSuccesses := 0\<rparr>"
  define m1 where "m1 = m\<lparr>task := Some t2\<rparr>"
  have adj: "adjustConcurrency (m\<lparr>task := Some t1\<rparr>) (batchSuccess ty) (batchFail ty)
      (hasRateLimit ty) = m1"
    using f1 by (simp add: adjustConcurrency_def m1_def t2_def)
  have m1: "task m1 = Some t2" by (simp add: m1_def)
  show ?thesis
  proof (cases "index l + length batch < length (cards l) \<and> isRunning m1")
    case True
    then show ?thesis using a adj m1 f1
      by (simp add: resumeWindow_def Let_def t2_def)
  next
    case False
    obtain m' s' eff where h: "loopHead hostname m1 (l\<lparr>index := index l + length batch\<rparr>)
        = (m', s', eff)"
      by (cases "loopHead hostname m1 (l\<lparr>index := index l + length batch\<rparr>)")
    from loopHead_task [OF m1 h] obtain label
      where "task m' = Some (t2\<lparr>currentCard := label\<rparr>)" by blast
    with False h show ?thesis using a adj f1
      by (auto simp: resumeWindow_def Let_def t2_def)
  qed
qed

text \<open>
  C3, amended. For a window with at least one failure and no rate-limit signal, the
  adaptor resets the clean streak to 0 and changes nothing else: the concurrency and
  isRateLimited keep their values. This holds for the call of adjustConcurrency and for
  the whole window of the scheduler: when a window with a failed item and no throttled
  item has settled, the task has the isRateLimited and the concurrency it had before
  the window. So isRateLimited, once set by a rate-limited window, stays true through
  the mixed windows that follow it.
\<close>

theorem mixed_window_adjustment:
  assumes "task m = Some t"
  shows "(0 < f \<longrightarrow>
        adjustConcurrency m s f False = m\<lparr>task := Some (t\<lparr>consecutiveSuccesses := 0\<rparr>)\<rparr>) \<and>
     (length results = length batch \<longrightarrow> (\<exists>r\<in>set results. \<not> succeeded r) \<longrightarrow>
      (\<forall>r\<in>set results. \<not> throttled r) \<longrightarrow>
        (\<exists>m' s' eff t'. resumeWindow hostname now results l batch m = (m', s', eff) \<and>
           task m' = Some t' \<and> isRateLimited t' = isRateLimited t \<and>
           concurrency t' = concurrency t \<and> consecutiveSuccesses t' = 0 \<and>
           rateLimitCount t' = rateLimitCount t))"
  using assms mixed_window [of m t results batch hostname now l]
  by (simp add: adjustConcurrency_def)

lemma genMixed_plain_failure:
  "\<not> succeeded (outcomeOf genMixed 3) \<and> \<not> throttled (outcomeOf genMixed 3)"
  by code_simp

text \<open>
  Witness for the amended C3: the manager has been throttled (level 2, the flag set);
  a mixed outcome handed to the adaptor, and a window whose only item fails with a
  connection error, both leave the flag set and the level at 2.
\<close>

theorem mixed_window_adjustment_witness:
  "task slowMgr = Some slowTask \<and> isRateLimited slowTask \<and> (0::nat) < 1 \<and>
   adjustConcurrency slowMgr 2 1 False =
     slowMgr\<lparr>task := Some (slowTask\<lparr>consecutiveSuccesses := 0\<rparr>)\<rparr> \<and>
   map_option isRateLimited (task (adjustConcurrency slowMgr 2 1 False)) = Some True \<and>
   map_option concurrency (task (adjustConcurrency slowMgr 2 1 False)) = Some 2 \<and>
   length [outcomeOf genMixed 3] = length [cardN 4] \<and>
   \<not> succeeded (outcomeOf genMixed 3) \<and> \<not> throttled (outcomeOf genMixed 3) \<and>
   (\<exists>m' s' eff t'.
      resumeWindow noHost 0 [outcomeOf genMixed 3] firstLocals [cardN 4] slowMgr = (m', s', eff) \<and>
      task m' = Some t' \<and> isRateLimited t' \<and> concurrency t' = 2 \<and>
      consecutiveSuccesses t' = 0 \<and> rateLimitCount t' = 2)"
proof -
  have h: "task slowMgr = Some slowTask" by (simp add: slowMgr_def)
  have v: "isRateLimited slowTask" "concurrency slowTask = 2" "rateLimitCount slowTask = 2"
    by (simp_all add: slowTask_def)
  note th = mixed_window_adjustment [OF h, of 1 2 "[outcomeOf genMixed 3]" "[cardN 4]"
      noHost 0 firstLocals]
  have a: "adjustConcurrency slowMgr 2 1 False =
      slowMgr\<lparr>task := Some (slowTask\<lparr>consecutiveSuccesses := 0\<rparr>)\<rparr>"
    using th by simp
  have e: "\<exists>m' s' eff t'.
      resumeWindow noHost 0 [outcomeOf genMixed 3] firstLocals [cardN 4] slowMgr = (m', s', eff) \<and>
      task m' = Some t' \<and> isRateLimited t' \<and> concurrency t' = 2 \<and>
      consecutiveSuccesses t' = 0 \<and> rateLimitCount t' = 2"
    using th genMixed_plain_failure v by simp
  show ?thesis
    using h v genMixed_plain_failure e a by simp
qed

subsection \<open>C5: the inter-batch delay\<close>

text \<open>
  C5. For every base delay, concurrency level and rateLimitCount, calculateDelay
  returns min(base * 2^min(rateLimitCount, 4), 30000) when the window was rate-limited;
  otherwise base when the concurrency is 1; otherwise max(200, base / 2), the
  division being exact.
\<close>

theorem delay_formula:
  assumes "task m = Some t"
  shows "calculateDelay m base h =
     (if h then min (base * 2 ^ min (rateLimitCount t) 4) 30000
      else if concurrency t = 1 then base
      else max 200 (base / 2))"
  using assms by (simp add: calculateDelay_def Let_def)

text \<open>Witness for C5: base 1501 at level 4 with one rate-limit event gives 3002 after
  a rate-limited window and 750.5 otherwise; base 300 gives the floor of 200.\<close>

theorem delay_formula_witness:
  "task mgr1 = Some task1 \<and> calculateDelay mgr1 1501 True = 3002 \<and>
   calculateDelay mgr1 1501 False = 1501 / 2 \<and> calculateDelay mgr1 300 False = 200"
proof -
  have h: "task mgr1 = Some task1" by (simp add: mgr1_def)
  show ?thesis
    using h delay_formula [OF h, of 1501 True] delay_formula [OF h, of 1501 False]
      delay_formula [OF h, of 300 False]
    by (simp add: task1_def)
qed

subsection \<open>C8: the errors a caller sees\<close>

text \<open>
  C8. Seen through getStatus, the errors of the task are a buffer of capacity 100
  with first-in first-out eviction: a snapshot never holds more than 100 entries, it
  holds the entries recorded last, in order, and once 100 entries have been recorded
  every further entry drops the oldest one shown.
\<close>

theorem errors_window:
  "length (observedErrors m) \<le> 100 \<and>
   (task m = Some t \<longrightarrow> observedErrors m = drop (length (errors t) - 100) (errors t)) \<and>
   (task m = Some t \<longrightarrow> 100 \<le> length (errors t) \<longrightarrow>
      observedErrors (m\<lparr>task := Some (push e t)\<rparr>) = tl (observedErrors m) @ [e])"
proof -
  have a: "length (observedErrors m) \<le> 100"
    by (auto simp: observedErrors_def getStatus_def js_slice_from_100 split: option.splits)
  have b: "observedErrors m = drop (length (errors t) - 100) (errors t)" if "task m = Some t"
    using that by (simp add: observedErrors_def getStatus_def js_slice_from_100)
  have c: "observedErrors (m\<lparr>task := Some (push e t)\<rparr>) = tl (observedErrors m) @ [e]"
    if t: "task m = Some t" and l: "100 \<le> length (errors t)"
  proof -
    have "observedErrors (m\<lparr>task := Some (push e t)\<rparr>)
            = drop (Suc (length (errors t)) - 100) (errors t @ [e])"
      by (simp add: observedErrors_def getStatus_def js_slice_from_100 push_def)
    also have "\<dots> = drop (Suc (length (errors t) - 100)) (errors t) @ [e]"
    proof -
      have e1: "Suc (length (errors t)) - 100 = Suc (length (errors t) - 100)"
        using l by arith
      have e2: "Suc (length (errors t) - 100) - length (errors t) = 0"
        using l by arith
      show ?thesis unfolding e1 by (simp only: drop_append e2 drop_0)
    qed
    also have "\<dots> = tl (drop (length (errors t) - 100) (errors t)) @ [e]"
      by (simp add: drop_Suc tl_drop)
    finally show ?thesis using b [OF t] by simp
  qed
  from a b c show ?thesis by blast
qed

lemma fullMgr_shifted:
  "map cardId (observedErrors (fullMgr\<lparr>task := Some (push (errN 100) fullTask)\<rparr>)) =
     map int [1..<101]"
  by code_simp

text \<open>
  Witness for C8: a task with one hundred errors, numbered 0 to 99, records another
  one; the snapshot then shows the errors 1 to 100.
\<close>

theorem errors_window_witness:
  "task fullMgr = Some fullTask \<and> 100 \<le> length (errors fullTask) \<and>
   length (observedErrors fullMgr) \<le> 100 \<and>
   observedErrors fullMgr = drop (length (errors fullTask) - 100) (errors fullTask) \<and>
   observedErrors (fullMgr\<lparr>task := Some (push (errN 100) fullTask)\<rparr>) =
     tl (observedErrors fullMgr) @ [errN 100] \<and>
   map cardId (observedErrors (fullMgr\<lparr>task := Some (push (errN 100) fullTask)\<rparr>)) =
     map int [1..<101]"
proof -
  have h: "task fullMgr = Some fullTask" by (simp add: fullMgr_def)
  have l: "100 \<le> length (errors fullTask)" by (simp add: fullTask_def)
  show ?thesis
    using h l errors_window [of fullMgr fullTask "errN 100"] fullMgr_shifted
    by simp
qed

subsection \<open>C10: the base delay\<close>














subsection \<open>C4: a fully clean window\<close>

lemma applyResult_succeeded:
  "succeeded r \<Longrightarrow>
   applyResult now (c, r) (Some t, ty, n) =
     (Some (t\<lparr>current := current t + 1, successCount := successCount t + 1,
              errors := errors t @ warning now c r\<rparr>),
      ty\<lparr>batchSuccess := batchSuccess ty + 1\<rparr>, n + 1)"
  by (cases r) (simp_all add: succeeded_def warning_def Let_def push_def)

lemma drive_unfold:
  "0 < fuel \<Longrightarrow> drive hostname now cfg outcome titles fuel w =
     (case procs w of
        [] \<Rightarrow> Some w
      | AwaitConfig cs # _ \<Rightarrow>
          drive hostname now cfg outcome titles (fuel - 1)
            (exec hostname w (Resume 0 now (ConfigRead cfg)))
      | AwaitWindow l batch # _ \<Rightarrow>
          drive hostname now cfg outcome titles (fuel - 1)
            (exec hostname w (Resume 0 now
               (Settled (\<lambda>i. outcome (index l + i)) (\<lambda>i. titles (index l + i)))))
      | AwaitSleep l # _ \<Rightarrow>
          drive hostname now cfg outcome titles (fuel - 1) (exec hostname w (Resume 0 now Woken))
      | AwaitGrace # _ \<Rightarrow>
          drive hostname now cfg outcome titles (fuel - 1)
            (exec hostname w (Resume 0 now TimerFired))
      | Finished # _ \<Rightarrow> Some w)"
  by (cases fuel) (simp_all split: list.split sched.split)

lemma list_of_length_10:
  assumes "length (cs :: 'a list) = 10"
  obtains c0 c1 c2 c3 c4 c5 c6 c7 c8 c9 where "cs = [c0, c1, c2, c3, c4, c5, c6, c7, c8, c9]"
proof -
  from assms have "length cs = Suc (Suc (Suc (Suc (Suc (Suc (Suc (Suc (Suc (Suc 0)))))))))"
    by simp
  then show thesis using that by (auto simp: length_Suc_conv)
qed

lemma clean_run_of_ten:
  assumes len: "length cs = 10" and ok: "\<And>i. i < 10 \<Longrightarrow> succeeded (outcome i)"
  shows "\<exists>w. drive hostname now (Loaded parsed) outcome titles 10
            (exec hostname world0 (Start now cs tys strat)) = Some w \<and>
          map length (launches (trace w)) = [3, 3, 3, 1] \<and>
          map s_concurrency (snapshots (trace w)) = [3, 3, 3, 3, 3, 3, 4, 4, 4, 4]"
proof -
  from len obtain c0 c1 c2 c3 c4 c5 c6 c7 c8 c9
    where cs: "cs = [c0, c1, c2, c3, c4, c5, c6, c7, c8, c9]" by (rule list_of_length_10)
  show ?thesis unfolding cs
    by (simp add: drive_unfold world0_def constructor_def start_def isRunning_def Let_def
         getStatus_def resume_def resumeConfig_def loopHead_def js_slice_def
         resumeWindow_def applyResults_def applyResult_succeeded ok tally0_def
         afterProcessing_def
         adjustConcurrency_def calculateDelay_def enterFinally_def resumeGrace_def
         upt_rec [of _ "numeral _"] upt_rec [of 0 1]
         split del: if_split)
qed

text \<open>
  C4. For a fully clean window (at least one success, no failure, no rate-limit
  signal) the adaptor increments the clean streak and clears isRateLimited; when the
  streak thereby reaches 3 and the concurrency is below max, the concurrency grows by
  exactly 1 and the streak is reset to 0. In particular, when ten items all succeed on
  a fresh manager (initial concurrency 3, max 5), the run ends, the windows have the
  sizes 3, 3, 3, 1, and the concurrency in the emitted snapshots is 3 up to the launch
  of the third window and 4 from the snapshot that follows the third window on.
\<close>

theorem clean_window_adjustment:
  "(task m = Some t \<longrightarrow> 0 < s \<longrightarrow>
      adjustConcurrency m s 0 False =
        m\<lparr>task := Some
          (if 3 \<le> consecutiveSuccesses t + 1 \<and> concurrency t < maxConcurrency m
           then t\<lparr>consecutiveSuccesses := 0, isRateLimited := False,
                  concurrency := concurrency t + 1\<rparr>
           else t\<lparr>consecutiveSuccesses := consecutiveSuccesses t + 1,
                  isRateLimited := False\<rparr>)\<rparr>) \<and>
   (length cs = 10 \<longrightarrow> (\<forall>i<10. succeeded (outcome i)) \<longrightarrow>
      (\<exists>w. drive hostname now (Loaded parsed) outcome titles 10
              (exec hostname world0 (Start now cs tys strat)) = Some w \<and>
            map length (launches (trace w)) = [3, 3, 3, 1] \<and>
            map s_concurrency (snapshots (trace w)) = [3, 3, 3, 3, 3, 3, 4, 4, 4, 4]))"
proof (intro conjI impI)
  assume "task m = Some t" and "0 < s"
  then show "adjustConcurrency m s 0 False =
        m\<lparr>task := Some
          (if 3 \<le> consecutiveSuccesses t + 1 \<and> concurrency t < maxConcurrency m
           then t\<lparr>consecutiveSuccesses := 0, isRateLimited := False,
                  concurrency := concurrency t + 1\<rparr>
           else t\<lparr>consecutiveSuccesses := consecutiveSuccesses t + 1,
                  isRateLimited := False\<rparr>)\<rparr>"
    by (simp add: adjustConcurrency_def Let_def)
next
  assume "length cs = 10" and "\<forall>i<10. succeeded (outcome i)"
  then show "\<exists>w. drive hostname now (Loaded parsed) outcome titles 10
              (exec hostname world0 (Start now cs tys strat)) = Some w \<and>
            map length (launches (trace w)) = [3, 3, 3, 1] \<and>
            map s_concurrency (snapshots (trace w)) = [3, 3, 3, 3, 3, 3, 4, 4, 4, 4]"
    by (intro clean_run_of_ten) simp_all
qed

lemma genClean_succeeded: "succeeded (outcomeOf genClean i)"
  by (simp add: succeeded_def outcomeOf_def genClean_def processCardWithRetry.simps)

text \<open>
  Witness for C4: at level 4 with a streak of 2, a clean window of three raises the
  level to 5 and resets the streak; and the ten cards, processed without any failure.
\<close>

theorem clean_window_adjustment_witness:
  "task mgr1 = Some task1 \<and> (0::nat) < 3 \<and>
   map_option concurrency (task (adjustConcurrency mgr1 3 0 False)) = Some 5 \<and>
   map_option consecutiveSuccesses (task (adjustConcurrency mgr1 3 0 False)) = Some 0 \<and>
   length tenCards = 10 \<and> list_all (\<lambda>i. succeeded (outcomeOf genClean i)) [0..<10] \<and>
   (\<exists>w. drive noHost 0 (Loaded (Num 1500)) (outcomeOf genClean) renameSecond 10
           (exec noHost world0 (Start 0 tenCards (Many [''name'']) [])) = Some w \<and>
         map length (launches (trace w)) = [3, 3, 3, 1] \<and>
         map s_concurrency (snapshots (trace w)) = [3, 3, 3, 3, 3, 3, 4, 4, 4, 4])"
proof -
  have h: "task mgr1 = Some task1" by (simp add: mgr1_def)
  have l: "length tenCards = 10" by (simp add: tenCards_def)
  have g: "\<forall>i<10. succeeded (outcomeOf genClean i)" by (simp add: genClean_succeeded)
  have g': "list_all (\<lambda>i. succeeded (outcomeOf genClean i)) [0..<10]"
    by (simp add: list_all_iff genClean_succeeded)
  show ?thesis
    using h l g g'
      clean_window_adjustment [of mgr1 task1 3 tenCards "outcomeOf genClean" noHost 0
        "Num 1500" renameSecond "Many [''name'']" "[]"]
    by (simp add: mgr1_def task1_def constructor_def)
qed

subsection \<open>Facts about the effects and the for loop\<close>

lemma launches_append: "launches (xs @ ys) = launches xs @ launches ys"
  by (induction xs rule: launches.induct) simp_all

lemma snapshots_append: "snapshots (xs @ ys) = snapshots xs @ snapshots ys"
  by (induction xs rule: snapshots.induct) simp_all

lemma launches_Notify: "launches (replicate n Notify) = []"
  by (induction n) simp_all

lemma snapshots_Notify: "snapshots (replicate n Notify) = []"
  by (induction n) simp_all

lemma applyResult_frame:
  "\<exists>t' ty' n'. applyResult now cr (Some t, ty, n) = (Some t', ty', n') \<and>
     running t' = running t \<and> total t' = total t \<and>
     successCount t' + failCount t' = successCount t + failCount t + 1"
proof -
  obtain c r where cr: "cr = (c, r)" by (cases cr)
  show ?thesis unfolding cr by (cases r) (simp_all add: Let_def push_def)
qed

lemma foldl_applyResult_frame:
  "\<exists>t' ty' n'. foldl (\<lambda>st cr. applyResult now cr st) (Some t, ty, n) crs = (Some t', ty', n') \<and>
     running t' = running t \<and> total t' = total t \<and>
     successCount t' + failCount t' = successCount t + failCount t + length crs"
proof (induction crs arbitrary: t ty n)
  case Nil
  show ?case by simp
next
  case (Cons cr crs)
  obtain t1 ty1 n1 where s: "applyResult now cr (Some t, ty, n) = (Some t1, ty1, n1)"
    and f: "running t1 = running t" "total t1 = total t"
      "successCount t1 + failCount t1 = successCount t + failCount t + 1"
    using applyResult_frame [of now cr t ty n] by blast
  from Cons.IH [of t1 ty1 n1] s f show ?case by auto
qed

lemma adjustConcurrency_frame:
  assumes "task m = Some t"
  shows "\<exists>t'. adjustConcurrency m s f h = m\<lparr>task := Some t'\<rparr> \<and>
     running t' = running t \<and> total t' = total t \<and>
     successCount t' = successCount t \<and> failCount t' = failCount t"
  using assms by (auto simp: adjustConcurrency_def Let_def)

lemma resumeWindow_stopped:
  assumes t: "task m = Some t" and nr: "\<not> running t"
    and more: "index l + length batch < length (cards l)"
    and len: "length results = length batch"
  shows "\<exists>t' eff. resumeWindow hostname now results l batch m = (m\<lparr>task := Some t'\<rparr>, AwaitGrace, eff) \<and>
     launches eff = [] \<and> \<not> running t' \<and> total t' = total t \<and>
     successCount t' + failCount t' = successCount t + failCount t + length batch"
proof -
  obtain t1 ty n where a: "applyResults now batch results (task m) = (Some t1, ty, n)"
    and f1: "running t1 = running t" "total t1 = total t"
      "successCount t1 + failCount t1 = successCount t + failCount t + length batch"
    using foldl_applyResult_frame [of now t tally0 0 "zip batch results"] t len
    by (auto simp: applyResults_def)
  have "\<exists>t2. adjustConcurrency (m\<lparr>task := Some t1\<rparr>)
        (batchSuccess ty) (batchFail ty) (hasRateLimit ty) = m\<lparr>task := Some t2\<rparr> \<and>
      running t2 = running t1 \<and> total t2 = total t1 \<and>
      successCount t2 = successCount t1 \<and> failCount t2 = failCount t1"
    using adjustConcurrency_frame [of "m\<lparr>task := Some t1\<rparr>" t1
        "batchSuccess ty" "batchFail ty" "hasRateLimit ty"]
    by simp
  then obtain t2 where b: "adjustConcurrency (m\<lparr>task := Some t1\<rparr>)
        (batchSuccess ty) (batchFail ty) (hasRateLimit ty) = m\<lparr>task := Some t2\<rparr>"
    and f2: "running t2 = running t1" "total t2 = total t1"
      "successCount t2 = successCount t1" "failCount t2 = failCount t1"
    by blast
  have "resumeWindow hostname now results l batch m =
      (m\<lparr>task := Some t2\<rparr>, AwaitGrace,
       (replicate n Notify @ [Update (getStatus (m\<lparr>task := Some t2\<rparr>))]) @ [Timer 500])"
    using a b f1 f2 nr more
    by (simp add: resumeWindow_def Let_def isRunning_def loopHead_def enterFinally_def)
  then show ?thesis using f1 f2 nr
    by (auto simp: launches_append launches_Notify)
qed

subsection \<open>C9: stop while a window is in flight\<close>

text \<open>
  C9 as stated fails. Ten cards are started and stop is called while the first window
  of three is in flight. The window settles and its results are applied (the counts
  reach 3), no second window is launched, and the scheduler ends; but the last
  snapshot shows current = 10 = total, not a cursor below the total.
\<close>

theorem stop_forces_cursor_to_total:
  "map (\<lambda>s. (s_running s, s_current s, s_total s, s_successCount s + s_failCount s))
     (snapshots (trace stoppedRun)) =
     [(True, 0, 10, 0), (True, 0, 10, 0), (False, 0, 10, 0), (False, 3, 10, 3),
      (False, 10, 10, 3)] \<and>
   map length (launches (trace stoppedRun)) = [3] \<and>
   procs stoppedRun = [Finished] \<and>
   \<not> s_current (last (snapshots (trace stoppedRun))) <
       s_total (last (snapshots (trace stoppedRun)))"
  by code_simp

text \<open>
  C9, amended. If stop() is called while a window is in flight and unprocessed items
  remain beyond it, the window completes normally and its results are applied (the
  counts grow by the size of the window), no further window is launched, the
  scheduler finishes once its timer has fired, and the final snapshot has
  running:false and current equal to total: the finally block forces the cursor to
  the total although items remain unprocessed.
\<close>

theorem stop_mid_window:
  assumes i: "i < length (procs w)" and p: "procs w ! i = AwaitWindow l batch"
    and t: "task (mgr w) = Some t"
    and more: "index l + length batch < length (cards l)"
    and w': "w' = run hostname w
      [Stop, Resume i now (Settled f titles), Resume i later TimerFired]"
  shows "procs w' ! i = Finished \<and>
     launches (trace w') = launches (trace w) \<and>
     (\<exists>s. getStatus (mgr w') = Snapshot s \<and> last (snapshots (trace w')) = s \<and>
        \<not> s_running s \<and> s_current s = s_total s \<and> s_total s = total t \<and>
        s_successCount s + s_failCount s = successCount t + failCount t + length batch)"
proof -
  define t0 where "t0 = t\<lparr>running := False, currentCard := label_stopped\<rparr>"
  define m0 where "m0 = (case abortController (mgr w) of None \<Rightarrow> mgr w
     | Some a \<Rightarrow> mgr w\<lparr>abortController := Some True\<rparr>)\<lparr>task := Some t0\<rparr>"
  define w1 where "w1 = exec hostname w Stop"
  have m0: "task m0 = Some t0" by (simp add: m0_def)
  have w1: "mgr w1 = m0" "procs w1 = procs w" "launches (trace w1) = launches (trace w)"
    using t
    by (auto simp: w1_def stop_def Let_def m0_def t0_def launches_append split: option.splits)
  obtain t2 eff where r: "resumeWindow hostname now (map f [0..<length batch]) l
        (afterProcessing titles batch) m0 = (m0\<lparr>task := Some t2\<rparr>, AwaitGrace, eff)"
    and f2: "launches eff = []" "\<not> running t2" "total t2 = total t0"
      "successCount t2 + failCount t2 = successCount t0 + failCount t0 + length batch"
    using resumeWindow_stopped [of m0 t0 l "afterProcessing titles batch"
        "map f [0..<length batch]" hostname now] m0 more
    by (auto simp: t0_def)
  define w2 where "w2 = exec hostname w1 (Resume i now (Settled f titles))"
  have w2: "mgr w2 = m0\<lparr>task := Some t2\<rparr>" "procs w2 = (procs w)[i := AwaitGrace]"
    "launches (trace w2) = launches (trace w)"
    using i p r w1 f2 by (simp_all add: w2_def resume_def launches_append)
  define t3 where "t3 = t2\<lparr>running := False, currentCard := [], current := total t2\<rparr>"
  define w3 where "w3 = exec hostname w2 (Resume i later TimerFired)"
  have w3: "mgr w3 = m0\<lparr>task := Some t3\<rparr>" "procs w3 ! i = Finished"
    "trace w3 = trace w2 @ [Update (getStatus (m0\<lparr>task := Some t3\<rparr>)), Notify]"
    using i w2 by (simp_all add: w3_def resume_def resumeGrace_def Let_def t3_def)
  have "w' = w3" by (simp add: w' run_def w3_def w2_def w1_def)
  then show ?thesis
    using w3 w2 f2
    by (simp add: launches_append snapshots_append getStatus_def t3_def t0_def)
qed

lemma inFlight_state:
  "procs inFlight = [AwaitWindow firstLocals firstBatch] \<and> task (mgr inFlight) = Some firstTask"
  by code_simp

text \<open>
  Witness for the amended C9: the ten cards with the first window of three in flight.
\<close>

theorem stop_mid_window_witness:
  "0 < length (procs inFlight) \<and> procs inFlight ! 0 = AwaitWindow firstLocals firstBatch \<and>
   task (mgr inFlight) = Some firstTask \<and>
   index firstLocals + length firstBatch < length (cards firstLocals) \<and>
   procs stoppedRun ! 0 = Finished \<and>
   launches (trace stoppedRun) = launches (trace inFlight) \<and>
   (\<exists>s. getStatus (mgr stoppedRun) = Snapshot s \<and> last (snapshots (trace stoppedRun)) = s \<and>
      \<not> s_running s \<and> s_current s = s_total s \<and> s_total s = 10 \<and>
      s_successCount s + s_failCount s = 3)"
proof -
  have i: "0 < length (procs inFlight)" using inFlight_state by simp
  have p: "procs inFlight ! 0 = AwaitWindow firstLocals firstBatch" using inFlight_state by simp
  have t: "task (mgr inFlight) = Some firstTask" using inFlight_state by simp
  have more: "index firstLocals + length firstBatch < length (cards firstLocals)"
    by (simp add: firstLocals_def firstBatch_def tenCards_def)
  show ?thesis
    using i p t more stop_mid_window [OF i p t more stoppedRun_def]
    by (simp add: firstTask_def firstBatch_def)
qed

subsection \<open>C7: start while a task is active\<close>





subsection \<open>C6: an item that succeeds after two throttled attempts\<close>

lemma foldl_applyResult_succeeded:
  assumes "\<forall>cr\<in>set crs. succeeded (snd cr)"
  shows "\<exists>t'. foldl (\<lambda>st cr. applyResult now cr st) (Some t, ty, n) crs =
       (Some t', ty\<lparr>batchSuccess := batchSuccess ty + length crs\<rparr>, n + length crs) \<and>
     concurrency t' = concurrency t \<and> isRateLimited t' = isRateLimited t \<and>
     consecutiveSuccesses t' = consecutiveSuccesses t \<and>
     rateLimitCount t' = rateLimitCount t"
  using assms
proof (induction crs arbitrary: t ty n)
  case Nil
  show ?case by simp
next
  case (Cons cr crs)
  obtain c r where cr: "cr = (c, r)" by (cases cr)
  with Cons.prems have r: "succeeded r" by simp
  from Cons.prems have rest: "\<forall>cr\<in>set crs. succeeded (snd cr)" by simp
  show ?case
    using Cons.IH [OF rest, of "t\<lparr>current := current t + 1,
        successCount := successCount t + 1, errors := errors t @ warning now c r\<rparr>"
        "ty\<lparr>batchSuccess := batchSuccess ty + 1\<rparr>" "n + 1"]
    by (auto simp: cr applyResult_succeeded [OF r])
qed

lemma adjustConcurrency_clean:
  assumes "task m = Some t" and "0 < s"
  shows "\<exists>t'. task (adjustConcurrency m s 0 False) = Some t' \<and> \<not> isRateLimited t' \<and>
     rateLimitCount t' = rateLimitCount t \<and> concurrency t \<le> concurrency t'"
  using assms by (auto simp: adjustConcurrency_def Let_def)

lemma clean_window_not_halved:
  assumes t: "task m = Some t" and ne: "batch \<noteq> []"
    and len: "length results = length batch" and ok: "\<forall>r\<in>set results. succeeded r"
  shows "\<exists>m' s' eff t'. resumeWindow hostname now results l batch m = (m', s', eff) \<and>
     task m' = Some t' \<and> \<not> isRateLimited t' \<and> rateLimitCount t' = rateLimitCount t \<and>
     concurrency t \<le> concurrency t'"
proof -
  have "\<forall>cr\<in>set (zip batch results). succeeded (snd cr)"
    using ok by (auto dest: set_zip_rightD)
  from foldl_applyResult_succeeded [OF this, of now t tally0 0]
  obtain t1 where a: "applyResults now batch results (task m) =
        (Some t1, tally0\<lparr>batchSuccess := batchSuccess tally0 + length batch\<rparr>, 0 + length batch)"
    and f1: "concurrency t1 = concurrency t" "rateLimitCount t1 = rateLimitCount t"
    using t len by (auto simp: applyResults_def)
  define m1 where "m1 = adjustConcurrency (m\<lparr>task := Some t1\<rparr>) (length batch) 0 False"
  from ne have pos: "0 < length batch" by simp
  have "\<exists>t2. task m1 = Some t2 \<and> \<not> isRateLimited t2 \<and>
      rateLimitCount t2 = rateLimitCount t1 \<and> concurrency t1 \<le> concurrency t2"
    unfolding m1_def by (rule adjustConcurrency_clean) (use ne in simp_all)
  then obtain t2 where m1: "task m1 = Some t2" and f2: "\<not> isRateLimited t2"
      "rateLimitCount t2 = rateLimitCount t1" "concurrency t1 \<le> concurrency t2"
    by blast
  have head: "\<exists>m' s' eff t'. loopHead hostname m1 l' = (m', s', eff) \<and> task m' = Some t' \<and>
      \<not> isRateLimited t' \<and> rateLimitCount t' = rateLimitCount t2 \<and>
      concurrency t' = concurrency t2" for l'
    using m1 f2 by (auto simp: loopHead_def enterFinally_def Let_def)
  show ?thesis
  proof (cases "index l + length batch < length (cards l) \<and> isRunning m1")
    case True
    then show ?thesis using a m1 f1 f2
      by (simp add: resumeWindow_def Let_def tally0_def m1_def [symmetric])
  next
    case False
    from head [of "l\<lparr>index := index l + length batch\<rparr>"]
    obtain m' s' eff t' where h: "loopHead hostname m1 (l\<lparr>index := index l + length batch\<rparr>)
          = (m', s', eff)" "task m' = Some t'" "\<not> isRateLimited t'"
        "rateLimitCount t' = rateLimitCount t2" "concurrency t' = concurrency t2"
      by blast
    with False show ?thesis using a f1 f2
      by (auto simp: resumeWindow_def Let_def tally0_def m1_def [symmetric])
  qed
qed

text \<open>
  C6 as stated fails. Item 4 of 10 is throttled twice and succeeds on its third
  attempt; the executor sleeps 2000 and 4000 ms and returns a success that is not
  marked rate-limited. In the undisturbed run the snapshot that follows its window,
  the second of three cards, shows concurrency 3 and isRateLimited false, as every
  other snapshot before the increase to 4: the window is not marked rate-limited and
  the concurrency is never halved.
\<close>

theorem retried_item_leaves_window_clean:
  "processCardWithRetry (genRetry 3) 0 =
     (\<lparr>success = True, updated = Some True, rateLimited = False, partialError = None,
       error = None\<rparr>, [2000, 4000]) \<and>
   map_option (\<lambda>w. map (\<lambda>s. (s_concurrency s, s_isRateLimited s, s_successCount s,
        length (s_errors s))) (snapshots (trace w)))
     (drive noHost 0 (Loaded (Num 1500)) (outcomeOf genRetry) noRename 10 started) =
     Some [(3, False, 0, 0), (3, False, 0, 0), (3, False, 3, 0), (3, False, 3, 0),
           (3, False, 6, 0), (3, False, 6, 0), (4, False, 9, 0), (4, False, 9, 0),
           (4, False, 10, 0), (4, False, 10, 0)]"
  by code_simp

text \<open>
  C6, amended. For an item whose processing fails twice with a rate-limit error and
  then succeeds on the third attempt, the executor retries after sleeps of 2000 ms and
  4000 ms and returns a plain success, carrying the partial error of the third attempt
  if it reports one. The item adds 1 to current and to successCount and no error to
  errors: the only entry it can add is the warning for that partial error, and it adds
  none when the third attempt reports none. It does not mark its window rate-limited.
  A window in which every item ends in success, retried or not, is a clean window:
  after it isRateLimited is false, rateLimitCount is unchanged and the concurrency is
  not lowered.
\<close>

theorem retried_success:
  assumes g0: "gen 0 = Threw e0" and r0: "isRateLimitError e0"
    and g1: "gen 1 = Threw e1" and r1: "isRateLimitError e1"
    and g2: "gen 2 = Returned upd pe"
  shows "processCardWithRetry gen 0 =
       (\<lparr>success = True, updated = Some upd, rateLimited = False, partialError = pe,
         error = None\<rparr>, [2000, 4000]) \<and>
     applyResult now (c, Fulfilled (fst (processCardWithRetry gen 0))) (Some t, ty, n) =
       (Some (t\<lparr>current := current t + 1, successCount := successCount t + 1,
                errors := errors t @
                  (if truthy pe then [entry c (prefix_partial @ the pe) now True] else [])\<rparr>),
        ty\<lparr>batchSuccess := batchSuccess ty + 1\<rparr>, n + 1) \<and>
     (task m = Some t \<longrightarrow> batch \<noteq> [] \<longrightarrow> length results = length batch \<longrightarrow>
      Fulfilled (fst (processCardWithRetry gen 0)) \<in> set results \<longrightarrow>
      (\<forall>r\<in>set results. succeeded r) \<longrightarrow>
        (\<exists>m' s' eff t'. resumeWindow hostname now results l batch m = (m', s', eff) \<and>
           task m' = Some t' \<and> \<not> isRateLimited t' \<and> rateLimitCount t' = rateLimitCount t \<and>
           concurrency t \<le> concurrency t'))"
proof -
  from g0 g1 g2 have g: "gen 0 = Threw e0" "gen (Suc 0) = Threw e1"
      "gen (Suc (Suc 0)) = Returned upd pe"
    by (simp_all add: numeral_2_eq_2)
  have two: "processCardWithRetry gen (Suc (Suc 0)) =
      (\<lparr>success = True, updated = Some upd, rateLimited = False, partialError = pe,
         error = None\<rparr>, [])"
    by (subst processCardWithRetry.simps) (simp add: g)
  have one: "processCardWithRetry gen (Suc 0) =
      (\<lparr>success = True, updated = Some upd, rateLimited = False, partialError = pe,
         error = None\<rparr>, [4000])"
    by (subst processCardWithRetry.simps) (simp add: g r0 r1 maxRetries_def two Let_def)
  have zero: "processCardWithRetry gen 0 =
      (\<lparr>success = True, updated = Some upd, rateLimited = False, partialError = pe,
         error = None\<rparr>, [2000, 4000])"
    by (subst processCardWithRetry.simps) (simp add: g r0 r1 maxRetries_def one Let_def)
  show ?thesis
    using zero clean_window_not_halved [of m t batch results hostname now l]
    by (simp add: Let_def push_def)
qed

text \<open>
  Witness for the amended C6: the item at position 3, throttled twice, as the only
  item of a window at concurrency 4, adds nothing to errors; an item whose third
  attempt reports a partial error adds one warning entry and no error.
\<close>

theorem retried_success_witness:
  "genRetry 3 0 = Threw err429 \<and> isRateLimitError err429 \<and> genRetry 3 1 = Threw err429 \<and>
   genRetry 3 2 = Returned True None \<and>
   processCardWithRetry (genRetry 3) 0 =
     (\<lparr>success = True, updated = Some True, rateLimited = False, partialError = None,
       error = None\<rparr>, [2000, 4000]) \<and>
   applyResult 0 (cardN 4, outcomeOf genRetry 3) (Some task1, tally0, 0) =
     (Some (task1\<lparr>current := 7, successCount := 6\<rparr>),
      \<lparr>batchSuccess = 1, batchFail = 0, hasRateLimit = False\<rparr>, 1) \<and>
   task mgr1 = Some task1 \<and> [cardN 4] \<noteq> [] \<and>
   length [outcomeOf genRetry 3] = length [cardN 4] \<and>
   succeeded (outcomeOf genRetry 3) \<and>
   (\<exists>m' s' eff t'.
      resumeWindow noHost 0 [outcomeOf genRetry 3] firstLocals [cardN 4] mgr1 = (m', s', eff) \<and>
      task m' = Some t' \<and> \<not> isRateLimited t' \<and> rateLimitCount t' = 1 \<and>
      4 \<le> concurrency t') \<and>
   genPartial 0 = Threw err429 \<and> genPartial 1 = Threw err429 \<and>
   genPartial 2 = Returned True (Some partialTags) \<and>
   processCardWithRetry genPartial 0 =
     (\<lparr>success = True, updated = Some True, rateLimited = False,
       partialError = Some partialTags, error = None\<rparr>, [2000, 4000]) \<and>
   applyResult 0 (cardN 4, Fulfilled (fst (processCardWithRetry genPartial 0)))
       (Some task1, tally0, 0) =
     (Some (task1\<lparr>current := 7, successCount := 6,
         errors := [\<lparr>cardId = 4, cardTitle = ''card'', errorText = prefix_partial @ partialTags,
                     time = 0, isWarning = True\<rparr>]\<rparr>),
      \<lparr>batchSuccess = 1, batchFail = 0, hasRateLimit = False\<rparr>, 1)"
proof -
  have g0: "genRetry 3 0 = Threw err429" by (simp add: genRetry_def)
  have r: "isRateLimitError err429" by (simp add: isRateLimitError_def err429_def)
  have g1: "genRetry 3 1 = Threw err429" by (simp add: genRetry_def)
  have g2: "genRetry 3 2 = Returned True None" by (simp add: genRetry_def)
  note th = retried_success [OF g0 r g1 r g2, where now = 0 and c = "cardN 4" and t = task1
      and ty = tally0 and n = 0 and m = mgr1 and batch = "[cardN 4]"
      and results = "[outcomeOf genRetry 3]" and hostname = noHost and l = firstLocals]
  have h: "task mgr1 = Some task1" by (simp add: mgr1_def)
  from th have z: "processCardWithRetry (genRetry 3) 0 =
     (\<lparr>success = True, updated = Some True, rateLimited = False, partialError = None,
       error = None\<rparr>, [2000, 4000])"
    by (rule conjunct1)
  have s: "succeeded (outcomeOf genRetry 3)"
    by (simp add: outcomeOf_def succeeded_def z)
  have first: "applyResult 0 (cardN 4, outcomeOf genRetry 3) (Some task1, tally0, 0) =
     (Some (task1\<lparr>current := 7, successCount := 6\<rparr>),
      \<lparr>batchSuccess = 1, batchFail = 0, hasRateLimit = False\<rparr>, 1)"
    using th by (simp add: outcomeOf_def task1_def tally0_def z truthy_def)
  have window: "\<exists>m' s' eff t'.
      resumeWindow noHost 0 [outcomeOf genRetry 3] firstLocals [cardN 4] mgr1 = (m', s', eff) \<and>
      task m' = Some t' \<and> \<not> isRateLimited t' \<and> rateLimitCount t' = 1 \<and>
      4 \<le> concurrency t'"
    using th h s by (simp add: outcomeOf_def task1_def z)
  have p0: "genPartial 0 = Threw err429" by (simp add: genPartial_def)
  have p1: "genPartial 1 = Threw err429" by (simp add: genPartial_def)
  have p2: "genPartial 2 = Returned True (Some partialTags)" by (simp add: genPartial_def)
  note tp = retried_success [OF p0 r p1 r p2, where now = 0 and c = "cardN 4" and t = task1
      and ty = tally0 and n = 0 and m = mgr1 and batch = "[cardN 4]"
      and results = "[outcomeOf genRetry 3]" and hostname = noHost and l = firstLocals]
  from tp have zp: "processCardWithRetry genPartial 0 =
     (\<lparr>success = True, updated = Some True, rateLimited = False,
       partialError = Some partialTags, error = None\<rparr>, [2000, 4000])"
    by (rule conjunct1)
  have second: "applyResult 0 (cardN 4, Fulfilled (fst (processCardWithRetry genPartial 0)))
       (Some task1, tally0, 0) =
     (Some (task1\<lparr>current := 7, successCount := 6,
         errors := [\<lparr>cardId = 4, cardTitle = ''card'', errorText = prefix_partial @ partialTags,
                     time = 0, isWarning = True\<rparr>]\<rparr>),
      \<lparr>batchSuccess = 1, batchFail = 0, hasRateLimit = False\<rparr>, 1)"
    using tp
    by (simp add: task1_def tally0_def zp truthy_def partialTags_def entry_def cardN_def
        str_or_def)
  show ?thesis
    using g0 r g1 g2 z first h s window p0 p1 p2 zp second by simp
qed

end
